theory Spec2Isabelle
  imports Complex_Main "HOL-Library.Signed_Division" "HOL-Library.Word"
begin

section \<open>The continuous-test client of Mimir (pkg/continuoustest/client.go)\<close>

text \<open>
  The client writes batches of time series to the remote-write endpoint and runs range
  queries against the query endpoint. Everything the Go code obtains from a library
  (protobuf, snappy, net/url, net/http, the Prometheus API client) is a field of the
  record \<open>environment\<close>, so every theorem holds for each behaviour of these libraries.
  A Go \<open>string\<close> and a Go \<open>[]byte\<close> are sequences of bytes; both are \<^typ>\<open>string\<close>
  here, whose characters are the 256 byte values. A Go \<open>int\<close> is an \<^typ>\<open>int\<close>: the code
  only compares integers, takes a minimum and divides a status code by 100 (the
  division of Go truncates towards zero: \<open>sdiv\<close>).

  Contexts and their timeouts are not part of the model: a request that times out or is
  cancelled is a request that the network answers with an error. The logger of the
  client is left out, since nothing reads it.
\<close>

subsection \<open>Errors and panics\<close>

datatype arg = ArgString string | ArgInt int

text \<open>
  An error value records how it was built: \<open>errors.New(msg)\<close>, \<open>errors.Wrap(err, msg)\<close>,
  \<open>errors.Wrapf(err, format, args)\<close>, \<open>fmt.Errorf(format, args)\<close>, the \<open>*url.Error\<close> in
  which \<open>http.Client.Do\<close> wraps every error it returns (its fields \<open>Op\<close> and \<open>URL\<close> are left
  out), or an error that a library returned. A nil \<open>error\<close> is \<open>None\<close> of the option type.
\<close>

datatype error =
    errors_New string
  | errors_Wrap error string
  | errors_Wrapf error string "arg list"
  | fmt_Errorf string "arg list"
  | url_Error error
  | library_error string

datatype 'a outcome = Return 'a | Panic string

subsection \<open>HTTP requests, responses and transports\<close>

type_synonym Header = "string \<rightharpoonup> string list"

text \<open>
  The fields of \<open>http.Request\<close> that the client sets; \<open>ReqBody\<close> is its field \<open>Body\<close>, the
  bytes that the request sends.
\<close>

record Request =
  Method :: string
  URL :: string
  Header :: Header
  ReqBody :: string

text \<open>
  A response body is a stream: the bytes it delivers, then its end, which is end of file
  (\<open>None\<close>) or a read error. An \<open>io.Reader\<close> may report its end in the same call of \<open>Read\<close>
  that delivers its last bytes, or in a later call: the flag is true in the first case.
\<close>

datatype Reader = Reader string "error option" bool

text \<open>
  The fields of \<open>http.Response\<close> that are read; \<open>RespHeader\<close> is its field \<open>Header\<close>, where
  a redirect carries its \<open>Location\<close>.
\<close>

record Response =
  Status :: string
  StatusCode :: int
  RespHeader :: Header
  Body :: Reader

text \<open>
  The state of the outside world is the list of the requests handed to the network so
  far, oldest first. The network answers a request with a response or with a
  transport error; the answer may depend on everything sent before.
\<close>

type_synonym world = "Request list"

type_synonym RoundTripper = "Request \<Rightarrow> world \<Rightarrow> (error + Response) \<times> world"

text \<open>
  What a library does with a round tripper: it returns, or it sends one request and goes
  on according to the answer.
\<close>

datatype 'a http_io = Done 'a | Call Request "(error + Response) \<Rightarrow> 'a http_io"

primrec run_io :: "RoundTripper \<Rightarrow> 'a http_io \<Rightarrow> world \<Rightarrow> 'a \<times> world" where
  "run_io tr (Done a) w = (a, w)"
| "run_io tr (Call req k) w = (case tr req w of (r, w') \<Rightarrow> run_io tr (k r) w')"

subsection \<open>Time series and query results\<close>

type_synonym int64 = "64 word"

text \<open>A \<open>float64\<close> is kept as its 64 bits: no arithmetic is done on it.\<close>

type_synonym float64 = "64 word"

record TimeSeries =
  Labels :: "(string \<times> string) list"
  Samples :: "(float64 \<times> int64) list"

record WriteRequest =
  Timeseries :: "TimeSeries list"

datatype ValueType = ValNone | ValScalar | ValVector | ValMatrix | ValString

record SampleStream =
  Metric :: "string \<rightharpoonup> string"
  Values :: "(int64 \<times> float64) list"

type_synonym Matrix = "SampleStream list"

text \<open>
  \<open>model.Value\<close> is an interface. Its implementations in the model package are the
  scalar, the vector, the matrix and the string; \<open>OtherValue t n\<close> is a value of any
  other type that implements the interface and whose method \<open>Type\<close> returns \<open>t\<close>.
\<close>

datatype Value =
    ScalarValue int64 float64
  | VectorValue "((string \<rightharpoonup> string) \<times> int64 \<times> float64) list"
  | MatrixValue Matrix
  | StringValue int64 string
  | OtherValue ValueType nat

fun Value_Type :: "Value \<Rightarrow> ValueType" where
  "Value_Type (ScalarValue _ _) = ValScalar"
| "Value_Type (VectorValue _) = ValVector"
| "Value_Type (MatrixValue _) = ValMatrix"
| "Value_Type (StringValue _ _) = ValString"
| "Value_Type (OtherValue t _) = t"

text \<open>The type assertion \<open>value.(model.Matrix)\<close>: the matrix and whether the assertion holds.\<close>

fun assert_Matrix :: "Value \<Rightarrow> Matrix option" where
  "assert_Matrix (MatrixValue m) = Some m"
| "assert_Matrix _ = None"

type_synonym Time = int

type_synonym Duration = int

record Range =
  Start :: Time
  End :: Time
  Step :: Duration

subsection \<open>The libraries\<close>

text \<open>
  What \<open>http.Client.Do\<close> does with an answer that has a redirect status: it returns the
  answer as it is, it gives up with an error (a \<open>Location\<close> that does not parse), or it
  goes on with the request of the next hop.
\<close>

datatype redirection = NoRedirect | Refuse error | Follow Request

record environment =
  proto_Marshal :: "WriteRequest \<Rightarrow> error + string"
  snappy_Encode :: "string \<Rightarrow> string"
  url_Parse :: "string \<Rightarrow> error + string"
  CanonicalMIMEHeaderKey :: "string \<Rightarrow> string"
  network :: "world \<Rightarrow> error + Response"
  redirect :: "Request list \<Rightarrow> Response \<Rightarrow> redirection"
  v1_QueryRange :: "string \<Rightarrow> string \<Rightarrow> Range \<Rightarrow>
    (Value option \<times> string list \<times> error option) http_io"

text \<open>\<open>http.Header\<close>: the keys of the map are canonical header names.\<close>

definition Header_Set :: "environment \<Rightarrow> Header \<Rightarrow> string \<Rightarrow> string \<Rightarrow> Header" where
  "Header_Set E h key v = h(CanonicalMIMEHeaderKey E key \<mapsto> [v])"

definition Header_Add :: "environment \<Rightarrow> Header \<Rightarrow> string \<Rightarrow> string \<Rightarrow> Header" where
  "Header_Add E h key v =
     h(CanonicalMIMEHeaderKey E key \<mapsto>
         (case h (CanonicalMIMEHeaderKey E key) of None \<Rightarrow> [] | Some vs \<Rightarrow> vs) @ [v])"

definition Header_Get :: "environment \<Rightarrow> Header \<Rightarrow> string \<Rightarrow> string" where
  "Header_Get E h key =
     (case h (CanonicalMIMEHeaderKey E key) of
        None \<Rightarrow> []
      | Some [] \<Rightarrow> []
      | Some (v # _) \<Rightarrow> v)"

text \<open>
  \<open>http.NewRequestWithContext\<close> with a valid method and a context that is not nil: it
  fails when the URL does not parse.
\<close>

definition http_NewRequestWithContext ::
  "environment \<Rightarrow> string \<Rightarrow> string \<Rightarrow> string \<Rightarrow> error + Request" where
  "http_NewRequestWithContext E method url body =
     (case url_Parse E url of
        Inl err \<Rightarrow> Inl err
      | Inr u \<Rightarrow> Inr \<lparr>Method = method, URL = u, Header = Map.empty, ReqBody = body\<rparr>)"

text \<open>\<open>http.DefaultTransport\<close> hands the request to the network.\<close>

definition http_DefaultTransport :: "environment \<Rightarrow> RoundTripper" where
  "http_DefaultTransport E req w = (network E (w @ [req]), w @ [req])"

record http_Client =
  Transport :: RoundTripper

text \<open>
  \<open>http.Client.Do\<close> of a client that only has a transport, so with the default redirect
  policy. Each hop is one round trip through the transport. An error of the transport
  ends the call. An answer with a redirect status (\<open>redirectBehavior\<close>; the body of the
  request can be sent again, since \<open>http.NewRequestWithContext\<close> got it as a
  \<open>bytes.Reader\<close>) is handed to the library with the requests made so far, and the next
  hop is refused when 10 requests have been made. Every error is wrapped in a
  \<open>*url.Error\<close>. (When the policy refuses, Go returns the last response with the error;
  the client looks at the error only.)
\<close>

definition redirect_status :: "int \<Rightarrow> bool" where
  "redirect_status code \<longleftrightarrow> code = 301 \<or> code = 302 \<or> code = 303 \<or> code = 307 \<or> code = 308"

function http_Client_do ::
  "environment \<Rightarrow> http_Client \<Rightarrow> Request list \<Rightarrow> Request \<Rightarrow> world \<Rightarrow>
     (error + Response) \<times> world" where
  "http_Client_do E hc reqs req w =
     (case Transport hc req w of
        (Inl err, w') \<Rightarrow> (Inl (url_Error err), w')
      | (Inr resp, w') \<Rightarrow>
          if redirect_status (StatusCode resp)
          then
            (case redirect E (reqs @ [req]) resp of
               NoRedirect \<Rightarrow> (Inr resp, w')
             | Refuse err \<Rightarrow> (Inl (url_Error err), w')
             | Follow req' \<Rightarrow>
                 if 10 \<le> length (reqs @ [req])
                 then (Inl (url_Error (errors_New ''stopped after 10 redirects'')), w')
                 else http_Client_do E hc (reqs @ [req]) req' w')
          else (Inr resp, w'))"
  by pat_completeness auto
termination
  by (relation "measure (\<lambda>(E, hc, reqs, req, w). 10 - length reqs)") auto

declare http_Client_do.simps [simp del]

definition http_Client_Do :: "environment \<Rightarrow> http_Client \<Rightarrow> RoundTripper" where
  "http_Client_Do E hc req w = http_Client_do E hc [] req w"

text \<open>
  \<open>io.LimitReader(r, n)\<close> never asks \<open>r\<close> for more than the bytes that are left of \<open>n\<close>, and
  answers end of file without reading once \<open>n\<close> bytes are read. So it passes on the end of
  a stream of fewer than \<open>n\<close> bytes, and the end of a stream of exactly \<open>n\<close> bytes when it
  comes in the call of \<open>Read\<close> that delivers the last of them; an end that would come
  later is never seen. \<open>io.ReadAll\<close> returns the bytes read and the error that ended the
  reading, if any.
\<close>

fun io_LimitReader :: "Reader \<Rightarrow> int \<Rightarrow> Reader" where
  "io_LimitReader (Reader data e with_last) n =
     (if n \<le> 0 then Reader [] None False
      else if int (length data) < n \<or> (int (length data) = n \<and> with_last)
      then Reader data e with_last
      else Reader (take (nat n) data) None False)"

fun io_ReadAll :: "Reader \<Rightarrow> string \<times> error option" where
  "io_ReadAll (Reader data e with_last) = (data, e)"

text \<open>\<open>flagext.URLValue\<close>: a URL that may be nil; a URL is kept as the text it renders to.\<close>

definition URLValue_String :: "string option \<Rightarrow> string" where
  "URLValue_String v = (case v of None \<Rightarrow> [] | Some u \<Rightarrow> u)"

record api_Config =
  Address :: string
  RoundTripper :: RoundTripper

record httpClient =
  endpoint :: string
  client :: http_Client

definition api_NewClient :: "environment \<Rightarrow> api_Config \<Rightarrow> error + httpClient" where
  "api_NewClient E apiCfg =
     (case url_Parse E (Address apiCfg) of
        Inl err \<Rightarrow> Inl err
      | Inr u \<Rightarrow> Inr \<lparr>endpoint = u, client = \<lparr>Transport = RoundTripper apiCfg\<rparr>\<rparr>)"

text \<open>
  The query API of the read client: the library decides which requests to send, and
  each of them goes through the transport of the client.
\<close>

definition httpAPI_QueryRange ::
  "environment \<Rightarrow> httpClient \<Rightarrow> string \<Rightarrow> Range \<Rightarrow> world \<Rightarrow>
     (Value option \<times> string list \<times> error option) \<times> world" where
  "httpAPI_QueryRange E api query r w =
     run_io (http_Client_Do E (client api)) (v1_QueryRange E (endpoint api) query r) w"

subsection \<open>The client\<close>

definition maxErrMsgLen :: int where
  "maxErrMsgLen = 256"

text \<open>
  Modelled from the spec: \<open>util_math.Min\<close> of pkg/util/math is not among the sources; the
  write path takes "up to batchSize" samples from the front, the smaller of the two
  numbers.
\<close>

definition util_math_Min :: "int \<Rightarrow> int \<Rightarrow> int" where
  "util_math_Min a b = (if a < b then a else b)"

record ClientConfig =
  TenantID :: string
  WriteBaseEndpoint :: "string option"
  WriteBatchSize :: int
  WriteTimeout :: Duration
  ReadBaseEndpoint :: "string option"
  ReadTimeout :: Duration

record clientRoundTripper =
  tenantID :: string
  rt :: RoundTripper

record Client =
  writeClient :: http_Client
  readClient :: httpClient
  cfg :: ClientConfig

definition RoundTrip :: "environment \<Rightarrow> clientRoundTripper \<Rightarrow> RoundTripper" where
  "RoundTrip E crt req =
     rt crt (req\<lparr>Header := Header_Set E (Header req) ''X-Scope-OrgID'' (tenantID crt)\<rparr>)"

definition NewClient :: "environment \<Rightarrow> ClientConfig \<Rightarrow> error + Client" where
  "NewClient E config =
     (let transport = RoundTrip E \<lparr>tenantID = TenantID config, rt = http_DefaultTransport E\<rparr>
      in if WriteBaseEndpoint config = None
         then Inl (errors_New ''the write endpoint has not been set'')
         else if ReadBaseEndpoint config = None
         then Inl (errors_New ''the read endpoint has not been set'')
         else
           (case api_NewClient E
                   \<lparr>Address = URLValue_String (ReadBaseEndpoint config),
                    RoundTripper = transport\<rparr> of
              Inl err \<Rightarrow> Inl (errors_Wrap err ''failed to create read client'')
            | Inr api \<Rightarrow>
                Inr \<lparr>writeClient = \<lparr>Transport = transport\<rparr>, readClient = api,
                     cfg = config\<rparr>))"

definition QueryRange ::
  "environment \<Rightarrow> Client \<Rightarrow> string \<Rightarrow> Time \<Rightarrow> Time \<Rightarrow> Duration \<Rightarrow> world \<Rightarrow>
     (error + Matrix) outcome \<times> world" where
  "QueryRange E c query start end step w =
     (case httpAPI_QueryRange E (readClient c) query \<lparr>Start = start, End = end, Step = step\<rparr> w of
        ((val, warnings, Some err), w') \<Rightarrow> (Return (Inl err), w')
      | ((None, warnings, None), w') \<Rightarrow> (Panic ''nil pointer dereference'', w')
      | ((Some v, warnings, None), w') \<Rightarrow>
          if Value_Type v \<noteq> ValMatrix
          then (Return (Inl (errors_New ''was expecting to get a Matrix'')), w')
          else
            (case assert_Matrix v of
               None \<Rightarrow> (Return (Inl (errors_New ''failed to cast type to Matrix'')), w')
             | Some matrix \<Rightarrow> (Return (Inr matrix), w')))"

definition sendWriteRequest ::
  "environment \<Rightarrow> Client \<Rightarrow> WriteRequest \<Rightarrow> world \<Rightarrow> (int \<times> error option) \<times> world" where
  "sendWriteRequest E c req w =
     (case proto_Marshal E req of
        Inl err \<Rightarrow> ((0, Some err), w)
      | Inr data \<Rightarrow>
          (let compressed = snappy_Encode E data
           in case http_NewRequestWithContext E ''POST''
                     (URLValue_String (WriteBaseEndpoint (cfg c)) @ ''/api/v1/push'') compressed of
                Inl err \<Rightarrow> ((0, Some err), w)
              | Inr httpReq0 \<Rightarrow>
                  (let httpReq1 = httpReq0\<lparr>Header :=
                         Header_Add E (Header httpReq0) ''Content-Encoding'' ''snappy''\<rparr>;
                       httpReq2 = httpReq1\<lparr>Header :=
                         Header_Set E (Header httpReq1) ''Content-Type'' ''application/x-protobuf''\<rparr>;
                       httpReq3 = httpReq2\<lparr>Header :=
                         Header_Set E (Header httpReq2) ''User-Agent'' ''mimir-continuous-test''\<rparr>;
                       httpReq = httpReq3\<lparr>Header :=
                         Header_Set E (Header httpReq3) ''X-Prometheus-Remote-Write-Version'' ''0.1.0''\<rparr>
                   in case http_Client_Do E (writeClient c) httpReq w of
                        (Inl err, w') \<Rightarrow> ((0, Some err), w')
                      | (Inr httpResp, w') \<Rightarrow>
                          if StatusCode httpResp sdiv 100 \<noteq> 2
                          then
                            (case io_ReadAll (io_LimitReader (Body httpResp) maxErrMsgLen) of
                               (truncatedBody, Some err) \<Rightarrow>
                                 ((StatusCode httpResp,
                                   Some (errors_Wrapf err
                                     ''server returned HTTP status %s and client failed to read response body''
                                     [ArgString (Status httpResp)])), w')
                             | (truncatedBody, None) \<Rightarrow>
                                 ((StatusCode httpResp,
                                   Some (fmt_Errorf
                                     ''server returned HTTP status %s and body %q (truncated to %d bytes)''
                                     [ArgString (Status httpResp), ArgString truncatedBody,
                                      ArgInt maxErrMsgLen])), w'))
                          else ((StatusCode httpResp, None), w'))))"

text \<open>
  The loop of \<open>WriteSeries\<close>. It may run forever, so a call that does not return is
  \<open>None\<close>. The slice expression \<open>series[0:end]\<close> panics when \<open>end\<close> is negative.
\<close>

partial_function (option) WriteSeries_loop ::
  "environment \<Rightarrow> Client \<Rightarrow> TimeSeries list \<Rightarrow> int \<Rightarrow> world \<Rightarrow>
     ((int \<times> error option) outcome \<times> world) option" where
  "WriteSeries_loop E c series lastStatusCode w =
     (if int (length series) > 0
      then
        (let end = util_math_Min (int (length series)) (WriteBatchSize (cfg c))
         in if end < 0
            then Some (Panic ''slice bounds out of range'', w)
            else
              (let batch = take (nat end) series;
                   series' = drop (nat end) series
               in case sendWriteRequest E c \<lparr>Timeseries = batch\<rparr> w of
                    ((code, Some err), w') \<Rightarrow> Some (Return (code, Some err), w')
                  | ((code, None), w') \<Rightarrow> WriteSeries_loop E c series' code w'))
      else Some (Return (lastStatusCode, None), w))"

definition WriteSeries ::
  "environment \<Rightarrow> Client \<Rightarrow> TimeSeries list \<Rightarrow> world \<Rightarrow>
     ((int \<times> error option) outcome \<times> world) option" where
  "WriteSeries E c series w = WriteSeries_loop E c series 0 w"

subsection \<open>Batches, requests and runs\<close>

text \<open>
  The words of the specification, to compare the code with. \<open>slice xs lo hi\<close> is the Go
  slice expression \<open>xs[lo:hi]\<close>; \<open>batches b xs\<close> cuts \<open>xs\<close> into \<open>ceil(N/b)\<close> consecutive
  slices of \<open>b\<close> elements, the last one shorter when \<open>b\<close> does not divide \<open>N\<close>.
\<close>

definition slice :: "'a list \<Rightarrow> nat \<Rightarrow> nat \<Rightarrow> 'a list" where
  "slice xs lo hi = take (hi - lo) (drop lo xs)"

definition batches :: "nat \<Rightarrow> 'a list \<Rightarrow> 'a list list" where
  "batches b xs = map (\<lambda>i. take b (drop (i * b) xs)) [0..<(length xs + b - 1) div b]"

text \<open>
  The URL of the push endpoint; the request that \<open>sendWriteRequest\<close> hands to
  \<open>http.Client.Do\<close> for a compressed body, with its four headers; what the round tripper
  of a tenant makes of a request; and the two together, the request that reaches the
  network first.
\<close>

definition push_url :: "Client \<Rightarrow> string" where
  "push_url c = URLValue_String (WriteBaseEndpoint (cfg c)) @ ''/api/v1/push''"

definition base_request :: "environment \<Rightarrow> string \<Rightarrow> string \<Rightarrow> Request" where
  "base_request E u body =
     \<lparr>Method = ''POST'', URL = u,
      Header =
        Header_Set E
          (Header_Set E
            (Header_Set E
              (Header_Add E Map.empty ''Content-Encoding'' ''snappy'')
              ''Content-Type'' ''application/x-protobuf'')
            ''User-Agent'' ''mimir-continuous-test'')
          ''X-Prometheus-Remote-Write-Version'' ''0.1.0'',
      ReqBody = body\<rparr>"

definition with_tenant :: "environment \<Rightarrow> string \<Rightarrow> Request \<Rightarrow> Request" where
  "with_tenant E t req = req\<lparr>Header := Header_Set E (Header req) ''X-Scope-OrgID'' t\<rparr>"

definition push_request :: "environment \<Rightarrow> string \<Rightarrow> string \<Rightarrow> string \<Rightarrow> Request" where
  "push_request E tenant u body = with_tenant E tenant (base_request E u body)"

text \<open>
  What the wire shows of one call of \<open>http.Client.Do\<close> through the client of a tenant that
  starts in the world \<open>w\<close>, sends the requests \<open>hops\<close> and returns \<open>res\<close>: every hop carries
  the tenant; a hop whose answer has no redirect status is the last one and its answer
  is the result; and a response that is returned is the answer to the last hop.
\<close>

definition call_hops ::
  "environment \<Rightarrow> string \<Rightarrow> world \<Rightarrow> error + Response \<Rightarrow> Request list \<Rightarrow> bool" where
  "call_hops E t w res hops \<longleftrightarrow>
     hops \<noteq> [] \<and>
     (\<forall>r\<in>set hops. Header_Get E (Header r) ''X-Scope-OrgID'' = t) \<and>
     (\<forall>k resp. 0 < k \<and> k \<le> length hops \<and> network E (w @ take k hops) = Inr resp \<and>
          \<not> redirect_status (StatusCode resp) \<longrightarrow>
        k = length hops \<and> res = Inr resp) \<and>
     (\<forall>resp. res = Inr resp \<longrightarrow> network E (w @ hops) = Inr resp)"

text \<open>The error of \<open>sendWriteRequest\<close> for a response that is not 2xx.\<close>

definition write_error :: "Response \<Rightarrow> error" where
  "write_error resp =
     (case io_ReadAll (io_LimitReader (Body resp) maxErrMsgLen) of
        (truncatedBody, Some err) \<Rightarrow>
          errors_Wrapf err
            ''server returned HTTP status %s and client failed to read response body''
            [ArgString (Status resp)]
      | (truncatedBody, None) \<Rightarrow>
          fmt_Errorf ''server returned HTTP status %s and body %q (truncated to %d bytes)''
            [ArgString (Status resp), ArgString truncatedBody, ArgInt maxErrMsgLen])"

text \<open>The HTTP client that \<open>NewClient\<close> builds for a tenant.\<close>

definition tenant_client :: "environment \<Rightarrow> string \<Rightarrow> http_Client" where
  "tenant_client E t = \<lparr>Transport = RoundTrip E \<lparr>tenantID = t, rt = http_DefaultTransport E\<rparr>\<rparr>"

text \<open>The loop of \<open>WriteSeries\<close> over a list of batches: it stops at the first error.\<close>

fun send_batches ::
  "environment \<Rightarrow> Client \<Rightarrow> TimeSeries list list \<Rightarrow> int \<Rightarrow> world \<Rightarrow>
     (int \<times> error option) \<times> world" where
  "send_batches E c [] lastStatusCode w = ((lastStatusCode, None), w)"
| "send_batches E c (batch # bs) lastStatusCode w =
     (case sendWriteRequest E c \<lparr>Timeseries = batch\<rparr> w of
        ((code, Some err), w') \<Rightarrow> ((code, Some err), w')
      | ((code, None), w') \<Rightarrow> send_batches E c bs code w')"

subsection \<open>Example inputs\<close>

text \<open>
  A small environment for concrete runs: a marshaller that knows two messages, a
  compressor that prefixes one byte, and a network given as a parameter.
\<close>

definition ts1 :: TimeSeries where
  "ts1 = \<lparr>Labels = [(''__name__'', ''up'')], Samples = [(0x3FF0000000000000, 1000)]\<rparr>"

definition ts2 :: TimeSeries where
  "ts2 = \<lparr>Labels = [(''__name__'', ''up'')], Samples = [(0, 2000)]\<rparr>"

definition ts3 :: TimeSeries where
  "ts3 = \<lparr>Labels = [(''__name__'', ''up'')], Samples = [(0x3FF0000000000000, 3000)]\<rparr>"

definition example_Marshal :: "WriteRequest \<Rightarrow> error + string" where
  "example_Marshal r =
     (if Timeseries r = [ts1, ts2] then Inr ''A''
      else if Timeseries r = [ts3] then Inr ''B''
      else Inl (library_error ''proto: cannot marshal''))"

definition example_Unmarshal :: "string \<Rightarrow> WriteRequest option" where
  "example_Unmarshal d =
     (if d = ''A'' then Some \<lparr>Timeseries = [ts1, ts2]\<rparr>
      else if d = ''B'' then Some \<lparr>Timeseries = [ts3]\<rparr>
      else None)"

definition example_Encode :: "string \<Rightarrow> string" where
  "example_Encode d = CHR ''s'' # d"

fun example_Decode :: "string \<Rightarrow> string option" where
  "example_Decode [] = None"
| "example_Decode (x # d) = (if x = CHR ''s'' then Some d else None)"

definition ok_response :: Response where
  "ok_response =
     \<lparr>Status = ''200 OK'', StatusCode = 200, RespHeader = Map.empty,
      Body = Reader [] None True\<rparr>"

definition always_ok :: "world \<Rightarrow> error + Response" where
  "always_ok w = Inr ok_response"

text \<open>
  A query API for the examples: one request to the query endpoint; the body of the
  answer names the value that is returned.
\<close>

definition example_result :: "Reader \<Rightarrow> Value" where
  "example_result body =
     (case body of Reader d e l \<Rightarrow>
        if d = ''matrix'' then MatrixValue [\<lparr>Metric = [''__name__'' \<mapsto> ''up''], Values = [(1000, 0x3FF0000000000000)]\<rparr>]
        else if d = ''vector'' then VectorValue []
        else OtherValue ValMatrix 0)"

definition example_query ::
  "string \<Rightarrow> string \<Rightarrow> Range \<Rightarrow> (Value option \<times> string list \<times> error option) http_io" where
  "example_query address query r =
     Call \<lparr>Method = ''POST'', URL = address @ ''/api/v1/query_range'', Header = Map.empty,
           ReqBody = query\<rparr>
       (\<lambda>answer. case answer of
          Inl err \<Rightarrow> Done (None, [], Some err)
        | Inr resp \<Rightarrow> Done (Some (example_result (Body resp)), [], None))"

definition answer_body :: "string \<Rightarrow> world \<Rightarrow> error + Response" where
  "answer_body d w =
     Inr \<lparr>Status = ''200 OK'', StatusCode = 200, RespHeader = Map.empty,
          Body = Reader d None True\<rparr>"

text \<open>
  Redirects in the examples: an answer with a \<open>Location\<close> is followed, with the method and
  the body of the first request for 307 and 308 and with an empty \<open>GET\<close> otherwise; the
  headers are those of the first request and the \<open>Referer\<close>.
\<close>

definition example_redirect :: "Request list \<Rightarrow> Response \<Rightarrow> redirection" where
  "example_redirect reqs resp =
     (case (reqs, RespHeader resp ''Location'') of
        (first # _, Some (loc # _)) \<Rightarrow>
          if StatusCode resp = 307 \<or> StatusCode resp = 308
          then Follow \<lparr>Method = Method first, URL = loc,
                 Header = (Header first)(''Referer'' \<mapsto> [URL (last reqs)]),
                 ReqBody = ReqBody first\<rparr>
          else Follow \<lparr>Method = ''GET'', URL = loc,
                 Header = (Header first)(''Referer'' \<mapsto> [URL (last reqs)]),
                 ReqBody = []\<rparr>
      | _ \<Rightarrow> NoRedirect)"

definition example_environment :: "(world \<Rightarrow> error + Response) \<Rightarrow> environment" where
  "example_environment net =
     \<lparr>proto_Marshal = example_Marshal,
      snappy_Encode = example_Encode,
      url_Parse = Inr,
      CanonicalMIMEHeaderKey = (\<lambda>key. key),
      network = net,
      redirect = example_redirect,
      v1_QueryRange = example_query\<rparr>"

definition example_config :: ClientConfig where
  "example_config =
     \<lparr>TenantID = ''anonymous'',
      WriteBaseEndpoint = Some ''http://mimir:8080'',
      WriteBatchSize = 2,
      WriteTimeout = 5000000000,
      ReadBaseEndpoint = Some ''http://mimir:8080/prometheus'',
      ReadTimeout = 30000000000\<rparr>"

definition example_client :: "environment \<Rightarrow> ClientConfig \<Rightarrow> Client" where
  "example_client E config =
     \<lparr>writeClient = tenant_client E (TenantID config),
      readClient = \<lparr>endpoint = URLValue_String (ReadBaseEndpoint config),
                    client = tenant_client E (TenantID config)\<rparr>,
      cfg = config\<rparr>"



definition connection_refused :: "world \<Rightarrow> error + Response" where
  "connection_refused w = Inl (library_error ''dial tcp: connection refused'')"










section \<open>Properties\<close>

subsection \<open>Arithmetic and batches\<close>

lemma sdiv_100_eq_2: "(c::int) sdiv 100 = 2 \<longleftrightarrow> 200 \<le> c \<and> c \<le> 299"
  by (auto simp add: signed_divide_int_def sgn_if abs_if split: if_splits)

lemma batches_Nil: "batches b [] = []"
  by (cases "b = 0") (simp_all add: batches_def)

lemma div_plus_self: "0 < b \<Longrightarrow> (m + b) div b = Suc (m div b)" for b m :: nat
  by simp

lemma count_step:
  assumes "0 < b" "0 < n"
  shows "(n + b - 1) div b = Suc ((n - b + b - 1) div b)"
proof -
  obtain m where m: "n = Suc m" using assms(2) by (cases n) auto
  have lhs: "(n + b - 1) div b = Suc (m div b)"
    using div_plus_self [OF assms(1), of m] by (simp add: m)
  show ?thesis
  proof (cases "b \<le> n")
    case True
    then have "n - b + b - 1 = m" by (simp add: m)
    then show ?thesis using lhs by simp
  next
    case False
    then have "m div b = 0" "(n - b + b - 1) div b = 0" using assms(1) by (simp_all add: m)
    then show ?thesis using lhs by simp
  qed
qed

lemma batches_step:
  assumes "0 < b" "xs \<noteq> []"
  shows "batches b xs = take b xs # batches b (drop b xs)"
proof -
  let ?n = "(length (drop b xs) + b - 1) div b"
  let ?f = "\<lambda>i. take b (drop (i * b) xs)"
  have n: "(length xs + b - 1) div b = Suc ?n"
    using count_step [of b "length xs"] assms by simp
  have u: "[0..<Suc ?n] = 0 # map Suc [0..<?n]"
    by (simp add: upt_conv_Cons map_Suc_upt del: upt_Suc)
  have "batches b xs = map ?f [0..<Suc ?n]"
    by (simp only: batches_def n)
  also have "\<dots> = ?f 0 # map (?f \<circ> Suc) [0..<?n]"
    by (simp only: u list.map map_map)
  also have "\<dots> = take b xs # batches b (drop b xs)"
    by (simp add: batches_def comp_def add.commute)
  finally show ?thesis .
qed

lemma length_batches: "length (batches b xs) = (length xs + b - 1) div b"
  by (simp add: batches_def)

lemma nth_batches: "i < length (batches b xs) \<Longrightarrow> batches b xs ! i = take b (drop (i * b) xs)"
  by (simp add: batches_def)

lemma concat_batches: "0 < b \<Longrightarrow> concat (batches b xs) = xs"
proof (induction "length xs" arbitrary: xs rule: less_induct)
  case less
  show ?case
  proof (cases "xs = []")
    case True
    then show ?thesis by (simp add: batches_Nil)
  next
    case False
    then have "length (drop b xs) < length xs" using less.prems by simp
    then have "concat (batches b (drop b xs)) = drop b xs" using less by blast
    then show ?thesis using False less.prems by (simp add: batches_step)
  qed
qed

lemma batches_append:
  assumes "0 < b" "length pre = j * b"
  shows "batches b (pre @ rest) = batches b pre @ batches b rest"
  using assms(2)
proof (induction j arbitrary: pre)
  case 0
  then show ?case by (simp add: batches_Nil)
next
  case (Suc j)
  then have ne: "pre \<noteq> []" "pre @ rest \<noteq> []" and len: "b \<le> length pre"
    using assms(1) by auto
  have "length (drop b pre) = j * b" using Suc.prems by simp
  then have "batches b (drop b pre @ rest) = batches b (drop b pre) @ batches b rest"
    by (rule Suc.IH)
  then show ?case
    using len by (simp add: batches_step [OF assms(1) ne(1)] batches_step [OF assms(1) ne(2)])
qed

lemma nat_ceil_div:
  fixes n b :: nat
  assumes "0 < b"
  shows "(n + b - 1) div b = n div b + (if n mod b = 0 then 0 else 1)"
proof -
  let ?q = "n div b" and ?r = "n mod b"
  have n: "n = ?q * b + ?r" by simp
  obtain m where b: "b = Suc m" using assms by (cases b) auto
  show ?thesis
  proof (cases "?r")
    case 0
    then have "n = ?q * b" using n by simp
    then have "n + b - 1 = m + ?q * b" by (simp add: b)
    then have "(n + b - 1) div b = m div b + ?q" using assms by simp
    then show ?thesis using 0 by (simp add: b)
  next
    case (Suc r')
    then have "n = ?q * b + Suc r'" using n by simp
    then have "n + b - 1 = (r' + ?q * b) + b" by simp
    then have "(n + b - 1) div b = Suc ((r' + ?q * b) div b)"
      using div_plus_self [OF assms, of "r' + ?q * b"] by simp
    moreover have "(r' + ?q * b) div b = r' div b + ?q" using assms by simp
    moreover have "r' < b" using Suc assms by (metis Suc_lessD mod_less_divisor)
    ultimately show ?thesis using Suc by simp
  qed
qed

lemma int_neg_div:
  fixes n b :: nat
  assumes "0 < b"
  shows "- (- int n div int b) = int (n div b) + (if n mod b = 0 then 0 else 1)"
proof -
  have nz: "int b \<noteq> 0" using assms by simp
  have m: "(int n mod int b = 0) = (n mod b = 0)"
    by (metis of_nat_mod of_nat_eq_0_iff)
  show ?thesis
    unfolding zdiv_zminus1_eq_if [OF nz] m by (simp add: zdiv_int)
qed

lemma ceiling_batches:
  assumes "0 < b"
  shows "int ((n + b - 1) div b) = \<lceil>real n / real b\<rceil>"
proof -
  have "\<lceil>real n / real b\<rceil> = \<lceil>of_int (int n) / (of_int (int b) :: real)\<rceil>" by simp
  also have "\<dots> = - (- int n div int b)" by (rule ceiling_divide_eq_div)
  also have "\<dots> = int ((n + b - 1) div b)"
    unfolding int_neg_div [OF assms] nat_ceil_div [OF assms] by simp
  finally show ?thesis by simp
qed

lemma nth_batches_slice:
  assumes "i < length (batches b xs)"
  shows "batches b xs ! i = slice xs (i * b) (min ((i + 1) * b) (length xs))"
proof -
  have "take b (drop (i * b) xs) = take (min ((i + 1) * b) (length xs) - i * b) (drop (i * b) xs)"
  proof (cases "(i + 1) * b \<le> length xs")
    case True
    then show ?thesis by simp
  next
    case False
    then have "min ((i + 1) * b) (length xs) - i * b = length (drop (i * b) xs)"
      and "length (drop (i * b) xs) \<le> b"
      by simp_all
    then show ?thesis by simp
  qed
  then show ?thesis using assms by (simp add: nth_batches slice_def)
qed

lemma redirect_status_not_2xx: "c sdiv 100 = 2 \<Longrightarrow> \<not> redirect_status c"
  by (auto simp add: sdiv_100_eq_2 redirect_status_def)

lemma Header_Get_Set: "Header_Get E (Header_Set E h key v) key = v"
  by (simp add: Header_Get_def Header_Set_def)

lemma with_tenant_header:
  "Header_Get E (Header (with_tenant E t req)) ''X-Scope-OrgID'' = t"
  by (simp add: with_tenant_def Header_Get_Set)

lemma push_request_tenant:
  "Header_Get E (Header (push_request E t u body)) ''X-Scope-OrgID'' = t"
  by (simp add: push_request_def with_tenant_header)

lemma push_request_body: "ReqBody (push_request E t u body) = body"
  by (simp add: push_request_def with_tenant_def base_request_def)

subsection \<open>One call of \<open>http.Client.Do\<close>\<close>

lemma tenant_Transport:
  "Transport (tenant_client E t) req w =
     (network E (w @ [with_tenant E t req]), w @ [with_tenant E t req])"
  by (simp add: tenant_client_def RoundTrip_def http_DefaultTransport_def with_tenant_def)

lemma Do_transport_error:
  assumes "network E (w @ [with_tenant E t req]) = Inl err"
  shows "http_Client_Do E (tenant_client E t) req w =
     (Inl (url_Error err), w @ [with_tenant E t req])"
  unfolding http_Client_Do_def
  by (subst http_Client_do.simps) (simp add: tenant_Transport assms)

lemma Do_final:
  assumes "network E (w @ [with_tenant E t req]) = Inr resp"
    and "\<not> redirect_status (StatusCode resp)"
  shows "http_Client_Do E (tenant_client E t) req w = (Inr resp, w @ [with_tenant E t req])"
  unfolding http_Client_Do_def
  by (subst http_Client_do.simps) (simp add: tenant_Transport assms)

lemma call_hops_single:
  assumes "network E (w @ [r]) = a"
    and "Header_Get E (Header r) ''X-Scope-OrgID'' = t"
    and "\<And>resp. res = Inr resp \<Longrightarrow> a = Inr resp"
    and "\<And>resp. a = Inr resp \<Longrightarrow> \<not> redirect_status (StatusCode resp) \<Longrightarrow> res = Inr resp"
  shows "call_hops E t w res [r]"
  unfolding call_hops_def
proof (intro conjI allI impI ballI)
  show "[r] \<noteq> []" by simp
  show "Header_Get E (Header x) ''X-Scope-OrgID'' = t" if "x \<in> set [r]" for x
    using that assms(2) by simp
  show "network E (w @ [r]) = Inr resp" if "res = Inr resp" for resp
    using that assms(1,3) by simp
  fix k resp
  assume h: "0 < k \<and> k \<le> length [r] \<and> network E (w @ take k [r]) = Inr resp \<and>
      \<not> redirect_status (StatusCode resp)"
  then have k: "k = 1" by simp
  then show "k = length [r]" by simp
  from h k have "a = Inr resp" using assms(1) by simp
  then show "res = Inr resp" using assms(4) h by simp
qed

lemma call_hops_cons:
  assumes "network E (w @ [r]) = Inr resp0"
    and "redirect_status (StatusCode resp0)"
    and "Header_Get E (Header r) ''X-Scope-OrgID'' = t"
    and "call_hops E t (w @ [r]) res hops"
  shows "call_hops E t w res (r # hops)"
  unfolding call_hops_def
proof (intro conjI allI impI ballI)
  note h = assms(4) [unfolded call_hops_def]
  show "r # hops \<noteq> []" by simp
  show "Header_Get E (Header x) ''X-Scope-OrgID'' = t" if "x \<in> set (r # hops)" for x
    using that assms(3) h by auto
  show "network E (w @ r # hops) = Inr resp" if "res = Inr resp" for resp
    using that h by simp
  fix k resp
  assume p: "0 < k \<and> k \<le> length (r # hops) \<and> network E (w @ take k (r # hops)) = Inr resp \<and>
      \<not> redirect_status (StatusCode resp)"
  then obtain j where j: "k = Suc j" by (cases k) auto
  have "j \<noteq> 0"
  proof
    assume "j = 0"
    then have "network E (w @ [r]) = Inr resp" using p j by simp
    then have "resp = resp0" using assms(1) by simp
    then show False using p assms(2) by simp
  qed
  then have "0 < j \<and> j \<le> length hops \<and> network E ((w @ [r]) @ take j hops) = Inr resp \<and>
      \<not> redirect_status (StatusCode resp)"
    using p j by simp
  then have "j = length hops \<and> res = Inr resp" using h by blast
  then show "k = length (r # hops)" and "res = Inr resp" using j by simp_all
qed

lemma http_Client_do_hops:
  assumes "\<And>req w. Transport hc req w =
      (network E (w @ [with_tenant E t req]), w @ [with_tenant E t req])"
    and "http_Client_do E hc reqs req w = (res, w')"
  shows "\<exists>hops. w' = w @ hops \<and> call_hops E t w res hops"
  using assms
proof (induction E hc reqs req w arbitrary: res w' rule: http_Client_do.induct)
  case (1 E hc reqs req w)
  let ?r = "with_tenant E t req"
  note tr = "1.prems"(1) [of req w]
  note run = "1.prems"(2) [unfolded http_Client_do.simps [of E hc reqs req w] tr prod.case]
  note hd = with_tenant_header [of E t req]
  show ?case
  proof (cases "network E (w @ [?r])")
    case (Inl err)
    then have "w' = w @ [?r]" "res = Inl (url_Error err)" using run by simp_all
    moreover from this have "call_hops E t w res [?r]"
      using Inl by (intro call_hops_single [OF _ hd]) auto
    ultimately show ?thesis by blast
  next
    case (Inr resp)
    show ?thesis
    proof (cases "redirect_status (StatusCode resp)")
      case False
      then have "w' = w @ [?r]" "res = Inr resp" using run Inr by simp_all
      moreover from this have "call_hops E t w res [?r]"
        using Inr by (intro call_hops_single [OF _ hd]) auto
      ultimately show ?thesis by blast
    next
      case True
      show ?thesis
      proof (cases "redirect E (reqs @ [req]) resp")
        case NoRedirect
        then have "w' = w @ [?r]" "res = Inr resp" using run Inr True by simp_all
        moreover from this have "call_hops E t w res [?r]"
          using Inr True by (intro call_hops_single [OF _ hd]) auto
        ultimately show ?thesis by blast
      next
        case (Refuse err)
        then have "w' = w @ [?r]" "res = Inl (url_Error err)" using run Inr True by simp_all
        moreover from this have "call_hops E t w res [?r]"
          using Inr True by (intro call_hops_single [OF _ hd]) auto
        ultimately show ?thesis by blast
      next
        case (Follow req')
        show ?thesis
        proof (cases "10 \<le> length (reqs @ [req])")
          case lim: True
          then have "w' = w @ [?r]"
            "res = Inl (url_Error (errors_New ''stopped after 10 redirects''))"
            using run Inr True Follow by simp_all
          moreover from this have "call_hops E t w res [?r]"
            using Inr True by (intro call_hops_single [OF _ hd]) auto
          ultimately show ?thesis by blast
        next
          case lim: False
          then have next_hop: "http_Client_do E hc (reqs @ [req]) req' (w @ [?r]) = (res, w')"
            using run Inr True Follow by simp
          from "1.IH" [OF tr [symmetric] _ True Follow lim "1.prems"(1) next_hop] Inr
          obtain hops where "w' = (w @ [?r]) @ hops" "call_hops E t (w @ [?r]) res hops"
            by auto
          then have "w' = w @ (?r # hops)" "call_hops E t w res (?r # hops)"
            using call_hops_cons [OF Inr True hd] by simp_all
          then show ?thesis by blast
        qed
      qed
    qed
  qed
qed

lemma Do_hops:
  assumes "http_Client_Do E (tenant_client E t) req w = (res, w')"
  shows "\<exists>hops. w' = w @ hops \<and> call_hops E t w res hops"
  using http_Client_do_hops [OF tenant_Transport assms [unfolded http_Client_Do_def]] .

subsection \<open>One call of \<open>sendWriteRequest\<close>\<close>

lemma sendWriteRequest_eq:
  assumes "writeClient c = tenant_client E t"
  shows "sendWriteRequest E c req w =
     (case proto_Marshal E req of
        Inl err \<Rightarrow> ((0, Some err), w)
      | Inr data \<Rightarrow>
          (case url_Parse E (push_url c) of
             Inl err \<Rightarrow> ((0, Some err), w)
           | Inr u \<Rightarrow>
               (case http_Client_Do E (tenant_client E t)
                       (base_request E u (snappy_Encode E data)) w of
                  (Inl err, w') \<Rightarrow> ((0, Some err), w')
                | (Inr resp, w') \<Rightarrow>
                    (if StatusCode resp sdiv 100 \<noteq> 2
                     then (StatusCode resp, Some (write_error resp))
                     else (StatusCode resp, None), w'))))"
  by (simp add: sendWriteRequest_def assms http_NewRequestWithContext_def
      base_request_def write_error_def push_url_def Let_def
      split: sum.splits prod.splits option.splits)

text \<open>The result when the answer to the first request is final.\<close>

lemma sendWriteRequest_first:
  assumes "writeClient c = tenant_client E t"
  shows "sendWriteRequest E c req w =
     (case proto_Marshal E req of
        Inl err \<Rightarrow> ((0, Some err), w)
      | Inr data \<Rightarrow>
          (case url_Parse E (push_url c) of
             Inl err \<Rightarrow> ((0, Some err), w)
           | Inr u \<Rightarrow>
               (case network E (w @ [push_request E t u (snappy_Encode E data)]) of
                  Inl err \<Rightarrow>
                    ((0, Some (url_Error err)), w @ [push_request E t u (snappy_Encode E data)])
                | Inr resp \<Rightarrow>
                    (if redirect_status (StatusCode resp) then sendWriteRequest E c req w
                     else
                       (if StatusCode resp sdiv 100 \<noteq> 2
                        then (StatusCode resp, Some (write_error resp))
                        else (StatusCode resp, None),
                        w @ [push_request E t u (snappy_Encode E data)])))))"
proof (cases "proto_Marshal E req")
  case (Inl err)
  then show ?thesis by (simp add: sendWriteRequest_eq [OF assms])
next
  case m: (Inr data)
  show ?thesis
  proof (cases "url_Parse E (push_url c)")
    case (Inl err)
    then show ?thesis using m by (simp add: sendWriteRequest_eq [OF assms])
  next
    case p: (Inr u)
    let ?b = "base_request E u (snappy_Encode E data)"
    show ?thesis
    proof (cases "network E (w @ [with_tenant E t ?b])")
      case (Inl err)
      then show ?thesis
        using m p by (simp add: sendWriteRequest_eq [OF assms] Do_transport_error push_request_def)
    next
      case (Inr resp)
      then show ?thesis
        using m p
        by (cases "redirect_status (StatusCode resp)")
          (simp_all add: sendWriteRequest_eq [OF assms] Do_final push_request_def)
    qed
  qed
qed

text \<open>What the wire shows of one call of \<open>sendWriteRequest\<close>.\<close>

lemma sendWriteRequest_wire:
  assumes "writeClient c = tenant_client E t"
  shows "\<exists>hops. snd (sendWriteRequest E c req w) = w @ hops \<and>
     (\<forall>r\<in>set hops. Header_Get E (Header r) ''X-Scope-OrgID'' = t) \<and>
     (\<forall>k resp. 0 < k \<and> k \<le> length hops \<and> network E (w @ take k hops) = Inr resp \<and>
          \<not> redirect_status (StatusCode resp) \<longrightarrow>
        k = length hops \<and>
        fst (sendWriteRequest E c req w) =
          (StatusCode resp,
           if StatusCode resp sdiv 100 = 2 then None else Some (write_error resp)))"
proof (cases "proto_Marshal E req")
  case (Inl err)
  then show ?thesis by (intro exI [of _ "[]"]) (auto simp add: sendWriteRequest_eq [OF assms])
next
  case m: (Inr data)
  show ?thesis
  proof (cases "url_Parse E (push_url c)")
    case (Inl err)
    then show ?thesis using m by (intro exI [of _ "[]"]) (auto simp add: sendWriteRequest_eq [OF assms])
  next
    case p: (Inr u)
    obtain res w' where run:
      "http_Client_Do E (tenant_client E t) (base_request E u (snappy_Encode E data)) w = (res, w')"
      by (metis surj_pair)
    from Do_hops [OF run] obtain hops where hops: "w' = w @ hops" "call_hops E t w res hops"
      by blast
    note h = hops(2) [unfolded call_hops_def]
    have s: "sendWriteRequest E c req w =
      (case res of Inl err \<Rightarrow> ((0, Some err), w')
       | Inr resp \<Rightarrow>
           ((StatusCode resp,
             if StatusCode resp sdiv 100 = 2 then None else Some (write_error resp)), w'))"
      using m p run by (simp add: sendWriteRequest_eq [OF assms] split: sum.splits)
    have w: "snd (sendWriteRequest E c req w) = w @ hops"
      using s hops(1) by (simp split: sum.splits)
    have f: "k = length hops \<and>
        fst (sendWriteRequest E c req w) =
          (StatusCode resp,
           if StatusCode resp sdiv 100 = 2 then None else Some (write_error resp))"
      if "0 < k \<and> k \<le> length hops \<and> network E (w @ take k hops) = Inr resp \<and>
          \<not> redirect_status (StatusCode resp)" for k resp
    proof -
      from that h have "k = length hops \<and> res = Inr resp" by blast
      then show ?thesis using s by simp
    qed
    show ?thesis using w h f by (intro exI [of _ hops]) blast
  qed
qed

lemma NewClient_Inr:
  assumes "NewClient E config = Inr c"
  shows "writeClient c = tenant_client E (TenantID config)"
    and "cfg c = config"
    and "client (readClient c) = tenant_client E (TenantID config)"
    and "WriteBaseEndpoint config \<noteq> None"
    and "ReadBaseEndpoint config \<noteq> None"
  using assms
  by (auto simp add: NewClient_def Let_def api_NewClient_def tenant_client_def
      split: if_splits sum.splits)

lemma WriteSeries_loop_Nil:
  "WriteSeries_loop E c [] lastStatusCode w = Some (Return (lastStatusCode, None), w)"
  by (simp add: WriteSeries_loop.simps)

lemma WriteSeries_loop_step:
  assumes "1 \<le> WriteBatchSize (cfg c)" "series \<noteq> []"
  shows "WriteSeries_loop E c series lastStatusCode w =
     (case sendWriteRequest E c \<lparr>Timeseries = take (nat (WriteBatchSize (cfg c))) series\<rparr> w of
        ((code, Some err), w') \<Rightarrow> Some (Return (code, Some err), w')
      | ((code, None), w') \<Rightarrow>
          WriteSeries_loop E c (drop (nat (WriteBatchSize (cfg c))) series) code w')"
proof -
  let ?B = "WriteBatchSize (cfg c)"
  let ?end = "util_math_Min (int (length series)) ?B"
  have pos: "\<not> ?end < 0" "0 < int (length series)"
    using assms by (simp_all add: util_math_Min_def)
  have t: "take (nat ?end) series = take (nat ?B) series"
    and d: "drop (nat ?end) series = drop (nat ?B) series"
    using assms by (auto simp add: util_math_Min_def)
  show ?thesis
    by (subst WriteSeries_loop.simps) (simp only: pos t d Let_def if_True if_False)
qed

lemma WriteSeries_loop_batches:
  assumes "1 \<le> WriteBatchSize (cfg c)"
  shows "WriteSeries_loop E c series lastStatusCode w =
     (case send_batches E c (batches (nat (WriteBatchSize (cfg c))) series) lastStatusCode w of
        (r, w') \<Rightarrow> Some (Return r, w'))"
proof (induction "length series" arbitrary: series lastStatusCode w rule: less_induct)
  case less
  let ?b = "nat (WriteBatchSize (cfg c))"
  have b: "0 < ?b" using assms by simp
  show ?case
  proof (cases "series = []")
    case True
    then show ?thesis by (simp add: WriteSeries_loop_Nil batches_Nil)
  next
    case False
    then have "length (drop ?b series) < length series" using b by simp
    then have IH: "\<And>l w. WriteSeries_loop E c (drop ?b series) l w =
       (case send_batches E c (batches ?b (drop ?b series)) l w of (r, w') \<Rightarrow> Some (Return r, w'))"
      using less by blast
    show ?thesis
      by (simp add: WriteSeries_loop_step [OF assms False] batches_step [OF b False] IH
          split: prod.splits option.splits)
  qed
qed

lemma send_batches_append:
  "send_batches E c (bs1 @ bs2) l w =
     (case send_batches E c bs1 l w of
        ((code, None), w1) \<Rightarrow> send_batches E c bs2 code w1
      | ((code, Some err), w1) \<Rightarrow> ((code, Some err), w1))"
  by (induction bs1 arbitrary: l w) (auto split: prod.splits option.splits)

lemma WriteSeries_send_batches:
  assumes "NewClient E config = Inr c" and "1 \<le> WriteBatchSize config"
  shows "WriteSeries E c series w =
     (case send_batches E c (batches (nat (WriteBatchSize config)) series) 0 w of
        (r, w') \<Rightarrow> Some (Return r, w'))"
  using WriteSeries_loop_batches [of c E series 0 w] assms NewClient_Inr(2) [OF assms(1)]
  by (simp add: WriteSeries_def)

text \<open>The call on a sequence whose first \<open>j\<close> batches succeed goes on with the next batch.\<close>

lemma WriteSeries_after_prefix:
  assumes "NewClient E config = Inr c"
    and "1 \<le> WriteBatchSize config"
    and "j * nat (WriteBatchSize config) < length series"
    and "WriteSeries E c (take (j * nat (WriteBatchSize config)) series) w =
           Some (Return (code, None), w1)"
  shows "WriteSeries E c series w =
     (case sendWriteRequest E c
        \<lparr>Timeseries = take (nat (WriteBatchSize config))
           (drop (j * nat (WriteBatchSize config)) series)\<rparr> w1 of
        ((code', Some err), w2) \<Rightarrow> Some (Return (code', Some err), w2)
      | ((code', None), w2) \<Rightarrow>
          (case send_batches E c
             (batches (nat (WriteBatchSize config))
                (drop (nat (WriteBatchSize config))
                   (drop (j * nat (WriteBatchSize config)) series))) code' w2 of
             (r, w3) \<Rightarrow> Some (Return r, w3)))"
proof -
  let ?b = "nat (WriteBatchSize config)"
  let ?pre = "take (j * ?b) series" and ?rest = "drop (j * ?b) series"
  have b: "0 < ?b" using assms(2) by simp
  have len: "length ?pre = j * ?b" using assms(3) by simp
  have rest: "?rest \<noteq> []" using assms(3) by simp
  have "batches ?b (?pre @ ?rest) = batches ?b ?pre @ batches ?b ?rest"
    by (rule batches_append [OF b len])
  then have bs: "batches ?b series = batches ?b ?pre @ (take ?b ?rest # batches ?b (drop ?b ?rest))"
    using batches_step [OF b rest] by simp
  have pre: "send_batches E c (batches ?b ?pre) 0 w = ((code, None), w1)"
    using assms(4) WriteSeries_send_batches [OF assms(1,2), of ?pre w]
    by (simp split: prod.splits)
  show ?thesis
    unfolding WriteSeries_send_batches [OF assms(1,2)] bs send_batches_append pre
    by (simp split: prod.splits option.splits)
qed

subsection \<open>Runs\<close>


text \<open>
  A run in which every batch marshals, the URL parses and every request is answered
  with a 2xx status: one request for each batch, and the status of the last answer.
\<close>

lemma send_batches_ok:
  assumes "writeClient c = tenant_client E t"
    and "url_Parse E (push_url c) = Inr u"
    and "list_all2 (\<lambda>batch d. proto_Marshal E \<lparr>Timeseries = batch\<rparr> = Inr d) bs ds"
    and "reqs = map (\<lambda>d. push_request E t u (snappy_Encode E d)) ds"
    and "\<forall>k. 0 < k \<and> k \<le> length reqs \<longrightarrow>
           (\<exists>resp. network E (w @ take k reqs) = Inr resp \<and> StatusCode resp sdiv 100 = 2)"
  shows "\<exists>code. send_batches E c bs l w = ((code, None), w @ reqs) \<and>
     (if bs = [] then code = l
      else \<exists>resp. network E (w @ reqs) = Inr resp \<and> code = StatusCode resp)"
  using assms(3-5)
proof (induction bs arbitrary: ds reqs l w)
  case Nil
  then show ?case by simp
next
  case (Cons batch bs)
  from Cons.prems(1) obtain d ds' where ds: "ds = d # ds'"
    "proto_Marshal E \<lparr>Timeseries = batch\<rparr> = Inr d"
    "list_all2 (\<lambda>batch d. proto_Marshal E \<lparr>Timeseries = batch\<rparr> = Inr d) bs ds'"
    by (auto simp add: list_all2_Cons1)
  let ?r = "push_request E t u (snappy_Encode E d)"
  let ?rest = "map (\<lambda>d. push_request E t u (snappy_Encode E d)) ds'"
  have reqs: "reqs = ?r # ?rest" using Cons.prems(2) ds(1) by simp
  have "0 < (1::nat) \<and> 1 \<le> length reqs" using reqs by simp
  then obtain resp where resp: "network E (w @ take 1 reqs) = Inr resp"
    "StatusCode resp sdiv 100 = 2"
    using Cons.prems(3) by blast
  then have first: "network E (w @ [?r]) = Inr resp" using reqs by simp
  have s: "sendWriteRequest E c \<lparr>Timeseries = batch\<rparr> w = ((StatusCode resp, None), w @ [?r])"
    using ds(2) assms(2) first resp(2) redirect_status_not_2xx [OF resp(2)]
    by (simp add: sendWriteRequest_first [OF assms(1)])
  have all: "\<forall>k. 0 < k \<and> k \<le> length ?rest \<longrightarrow>
      (\<exists>resp. network E ((w @ [?r]) @ take k ?rest) = Inr resp \<and> StatusCode resp sdiv 100 = 2)"
  proof (intro allI impI)
    fix k assume "0 < k \<and> k \<le> length ?rest"
    then have "0 < Suc k \<and> Suc k \<le> length reqs" using reqs by simp
    then have "\<exists>resp. network E (w @ take (Suc k) reqs) = Inr resp \<and> StatusCode resp sdiv 100 = 2"
      using Cons.prems(3) by blast
    then show "\<exists>resp. network E ((w @ [?r]) @ take k ?rest) = Inr resp \<and>
        StatusCode resp sdiv 100 = 2"
      using reqs by simp
  qed
  from Cons.IH [OF ds(3) refl all, of "StatusCode resp"] obtain code where
    IH: "send_batches E c bs (StatusCode resp) (w @ [?r]) = ((code, None), (w @ [?r]) @ ?rest)"
      "if bs = [] then code = StatusCode resp
       else \<exists>resp. network E ((w @ [?r]) @ ?rest) = Inr resp \<and> code = StatusCode resp"
    by blast
  have run: "send_batches E c (batch # bs) l w = ((code, None), w @ reqs)"
    using s IH(1) reqs by simp
  have last: "\<exists>resp. network E (w @ reqs) = Inr resp \<and> code = StatusCode resp"
  proof (cases "bs = []")
    case True
    then have "ds' = []" using ds(3) by simp
    then show ?thesis using IH(2) True first reqs by simp
  next
    case False
    then show ?thesis using IH(2) reqs by simp
  qed
  show ?case using run last by simp
qed

subsection \<open>The example inputs\<close>

lemma NewClient_example_client:
  assumes "WriteBaseEndpoint config \<noteq> None" "ReadBaseEndpoint config \<noteq> None"
    and "url_Parse E = Inr"
  shows "NewClient E config = Inr (example_client E config)"
  using assms
  by (simp add: NewClient_def Let_def example_client_def api_NewClient_def tenant_client_def)

lemma example_environment_sel:
  "proto_Marshal (example_environment net) = example_Marshal"
  "snappy_Encode (example_environment net) = example_Encode"
  "url_Parse (example_environment net) = Inr"
  "CanonicalMIMEHeaderKey (example_environment net) = (\<lambda>key. key)"
  "network (example_environment net) = net"
  "redirect (example_environment net) = example_redirect"
  "v1_QueryRange (example_environment net) = example_query"
  by (simp_all add: example_environment_def)

lemma example_config_sel:
  "TenantID example_config = ''anonymous''"
  "WriteBaseEndpoint example_config = Some ''http://mimir:8080''"
  "WriteBatchSize example_config = 2"
  "ReadBaseEndpoint example_config = Some ''http://mimir:8080/prometheus''"
  by (simp_all add: example_config_def)

lemma example_client_sel:
  "writeClient (example_client E config) = tenant_client E (TenantID config)"
  "cfg (example_client E config) = config"
  "readClient (example_client E config) =
     \<lparr>endpoint = URLValue_String (ReadBaseEndpoint config),
      client = tenant_client E (TenantID config)\<rparr>"
  by (simp_all add: example_client_def)

lemma example_codec:
  "\<forall>r d. proto_Marshal (example_environment net) r = Inr d \<longrightarrow> example_Unmarshal d = Some r"
  "\<forall>d. example_Decode (snappy_Encode (example_environment net) d) = Some d"
  by (auto simp add: example_environment_sel example_Marshal_def example_Unmarshal_def
      example_Encode_def split: if_splits)

lemma example_NewClient:
  "NewClient (example_environment net) (example_config\<lparr>WriteBatchSize := b\<rparr>) =
     Inr (example_client (example_environment net) (example_config\<lparr>WriteBatchSize := b\<rparr>))"
  by (rule NewClient_example_client) (simp_all add: example_config_sel example_environment_sel)

lemma example_batches:
  "batches 2 [ts1, ts2, ts3] = [[ts1, ts2], [ts3]]"
  "batches (Suc 0) [ts3] = [[ts3]]"
  "batches 2 [ts3] = [[ts3]]"
  "batches (Suc 0) [ts3, ts3, ts3] = [[ts3], [ts3], [ts3]]"
  by (simp_all add: batches_def upt_rec)

lemma example_run:
  "WriteSeries (example_environment always_ok) (example_client (example_environment always_ok) example_config) [ts1, ts2, ts3] [] =
     Some (Return (200, None),
       [push_request (example_environment always_ok) ''anonymous'' ''http://mimir:8080/api/v1/push'' ''sA'',
        push_request (example_environment always_ok) ''anonymous'' ''http://mimir:8080/api/v1/push'' ''sB''])"
proof -
  let ?E = "example_environment always_ok"
  have nc: "NewClient ?E example_config = Inr (example_client ?E example_config)"
    using example_NewClient [of always_ok 2] by (simp add: example_config_def)
  have b: "batches 2 [ts1, ts2, ts3] = [[ts1, ts2], [ts3]]"
    by (simp add: batches_def upt_rec)
  have B: "1 \<le> WriteBatchSize example_config" "nat (WriteBatchSize example_config) = 2"
    by (simp_all add: example_config_def)
  show ?thesis
    unfolding WriteSeries_send_batches [OF nc B(1)] B(2) b
    by (simp add: sendWriteRequest_first [OF example_client_sel(1)] redirect_status_def example_client_sel
        example_config_sel example_environment_sel URLValue_String_def push_url_def
        example_Marshal_def example_Encode_def ok_response_def always_ok_def sdiv_100_eq_2)
qed

subsection \<open>The claims\<close>

text \<open>
  C10: for the empty input sequence, \<open>WriteSeries\<close> sends no request (the world is
  unchanged) and returns status code 0 with a nil error, whatever the configuration.
\<close>

theorem WriteSeries_empty:
  "WriteSeries E c [] w = Some (Return (0, None), w)"
  by (simp add: WriteSeries_def WriteSeries_loop.simps)

text \<open>
  C1: take a client built by \<open>NewClient\<close> with a batch size \<open>B\<close> of at least 1, and let every
  batch request succeed: each of the \<open>ceil(N/B)\<close> batches of the input marshals (to the
  bytes \<open>ds\<close>), the push URL parses, and the request of each batch, sent after the
  requests of the batches before it, is answered with a 2xx status. Then \<open>WriteSeries\<close>
  returns a nil error and has sent exactly these requests, \<open>ceil(N/B)\<close> of them; the body
  of request \<open>i\<close>, decompressed and decoded, is the write request of the slice
  \<open>series[i*B : min((i+1)*B, N)]\<close>, and these slices put end to end are the input: no
  series is split or lost. The decoders are any left inverses of the encoders of the
  environment. A batch request answered with a redirect status is not a success in
  this sense: \<open>http.Client.Do\<close> may then send a further request for the same batch.
\<close>

theorem WriteSeries_batches:
  assumes "NewClient E config = Inr c"
    and "1 \<le> WriteBatchSize config"
    and "url_Parse E (push_url c) = Inr u"
    and "list_all2 (\<lambda>batch d. proto_Marshal E \<lparr>Timeseries = batch\<rparr> = Inr d)
           (batches (nat (WriteBatchSize config)) series) ds"
    and "reqs = map (\<lambda>d. push_request E (TenantID config) u (snappy_Encode E d)) ds"
    and "\<forall>k. 0 < k \<and> k \<le> length reqs \<longrightarrow>
           (\<exists>resp. network E (w @ take k reqs) = Inr resp \<and> StatusCode resp sdiv 100 = 2)"
    and "\<forall>r d. proto_Marshal E r = Inr d \<longrightarrow> proto_Unmarshal d = Some r"
    and "\<forall>d. snappy_Decode (snappy_Encode E d) = Some d"
  shows "(\<exists>code. WriteSeries E c series w = Some (Return (code, None), w @ reqs)) \<and>
     int (length reqs) = \<lceil>real (length series) / real_of_int (WriteBatchSize config)\<rceil> \<and>
     (\<forall>i<length reqs.
        Option.bind (snappy_Decode (ReqBody (reqs ! i))) proto_Unmarshal =
          Some \<lparr>Timeseries =
            slice series (i * nat (WriteBatchSize config))
              (min ((i + 1) * nat (WriteBatchSize config)) (length series))\<rparr>) \<and>
     concat (map (\<lambda>i. slice series (i * nat (WriteBatchSize config))
              (min ((i + 1) * nat (WriteBatchSize config)) (length series)))
       [0..<length reqs]) = series"
proof -
  let ?b = "nat (WriteBatchSize config)"
  let ?bs = "batches ?b series"
  have b: "0 < ?b" and B: "WriteBatchSize config = int ?b" using assms(2) by simp_all
  note wc = NewClient_Inr(1) [OF assms(1)]
  have len: "length reqs = length ?bs"
    using list_all2_lengthD [OF assms(4)] assms(5) by simp
  from send_batches_ok [OF wc assms(3,4,5,6), of 0] obtain code where
    "send_batches E c ?bs 0 w = ((code, None), w @ reqs)"
    by blast
  then have run: "WriteSeries E c series w = Some (Return (code, None), w @ reqs)"
    using WriteSeries_send_batches [OF assms(1,2), of series w] by simp
  have "int (length ?bs) = \<lceil>real (length series) / real ?b\<rceil>"
    by (simp only: length_batches ceiling_batches [OF b])
  then have cnt: "int (length reqs) =
      \<lceil>real (length series) / real_of_int (WriteBatchSize config)\<rceil>"
    using len B by simp
  have bodies: "\<forall>i<length reqs.
      Option.bind (snappy_Decode (ReqBody (reqs ! i))) proto_Unmarshal =
        Some \<lparr>Timeseries = slice series (i * ?b) (min ((i + 1) * ?b) (length series))\<rparr>"
  proof (intro allI impI)
    fix i assume i: "i < length reqs"
    then have i': "i < length ds" "i < length ?bs" using len assms(5) by simp_all
    have m: "proto_Marshal E \<lparr>Timeseries = ?bs ! i\<rparr> = Inr (ds ! i)"
      using list_all2_nthD [OF assms(4) i'(2)] .
    have "ReqBody (reqs ! i) = snappy_Encode E (ds ! i)"
      using i'(1) by (simp add: assms(5) push_request_body)
    then have "Option.bind (snappy_Decode (ReqBody (reqs ! i))) proto_Unmarshal =
        Some \<lparr>Timeseries = ?bs ! i\<rparr>"
      using assms(7,8) m by simp
    then show "Option.bind (snappy_Decode (ReqBody (reqs ! i))) proto_Unmarshal =
        Some \<lparr>Timeseries = slice series (i * ?b) (min ((i + 1) * ?b) (length series))\<rparr>"
      using nth_batches_slice [OF i'(2)] by simp
  qed
  have "map (\<lambda>i. slice series (i * ?b) (min ((i + 1) * ?b) (length series))) [0..<length reqs]
      = ?bs"
    by (rule nth_equalityI) (simp_all add: len nth_batches_slice)
  then have "concat (map (\<lambda>i. slice series (i * ?b) (min ((i + 1) * ?b) (length series)))
      [0..<length reqs]) = series"
    using concat_batches [OF b, of series] by simp
  then show ?thesis using run cnt bodies by blast
qed

text \<open>
  Three series with batch size 2 and a network that always answers 200: two requests,
  carrying the first two series and the third one.
\<close>

theorem WriteSeries_batches_witness:
  "NewClient (example_environment always_ok) example_config =
     Inr (example_client (example_environment always_ok) example_config) \<and>
   1 \<le> WriteBatchSize example_config \<and>
   url_Parse (example_environment always_ok)
     (push_url (example_client (example_environment always_ok) example_config)) =
     Inr ''http://mimir:8080/api/v1/push'' \<and>
   list_all2 (\<lambda>batch d. proto_Marshal (example_environment always_ok) \<lparr>Timeseries = batch\<rparr> = Inr d)
     (batches (nat (WriteBatchSize example_config)) [ts1, ts2, ts3]) [''A'', ''B''] \<and>
   WriteSeries (example_environment always_ok)
     (example_client (example_environment always_ok) example_config) [ts1, ts2, ts3] [] =
     Some (Return (200, None),
       [push_request (example_environment always_ok) ''anonymous''
          ''http://mimir:8080/api/v1/push'' ''sA'',
        push_request (example_environment always_ok) ''anonymous''
          ''http://mimir:8080/api/v1/push'' ''sB'']) \<and>
   (2::int) = \<lceil>real (length [ts1, ts2, ts3]) / real_of_int (WriteBatchSize example_config)\<rceil> \<and>
   Option.bind (example_Decode (ReqBody (push_request (example_environment always_ok)
       ''anonymous'' ''http://mimir:8080/api/v1/push'' ''sA''))) example_Unmarshal =
     Some \<lparr>Timeseries = [ts1, ts2]\<rparr> \<and>
   Option.bind (example_Decode (ReqBody (push_request (example_environment always_ok)
       ''anonymous'' ''http://mimir:8080/api/v1/push'' ''sB''))) example_Unmarshal =
     Some \<lparr>Timeseries = [ts3]\<rparr>"
proof -
  let ?E = "example_environment always_ok"
  let ?c = "example_client ?E example_config"
  let ?u = "''http://mimir:8080/api/v1/push''"
  let ?r1 = "push_request ?E ''anonymous'' ?u ''sA''"
  let ?r2 = "push_request ?E ''anonymous'' ?u ''sB''"
  have nc: "NewClient ?E example_config = Inr ?c"
    using example_NewClient [of always_ok 2] by (simp add: example_config_def)
  have B: "1 \<le> WriteBatchSize example_config" by (simp add: example_config_sel)
  have u: "url_Parse ?E (push_url ?c) = Inr ?u"
    by (simp add: example_environment_sel push_url_def example_client_sel example_config_sel
        URLValue_String_def)
  have m: "list_all2 (\<lambda>batch d. proto_Marshal ?E \<lparr>Timeseries = batch\<rparr> = Inr d)
      (batches (nat (WriteBatchSize example_config)) [ts1, ts2, ts3]) [''A'', ''B'']"
    by (simp add: example_config_sel example_batches example_environment_sel example_Marshal_def)
  have reqs: "[?r1, ?r2] =
      map (\<lambda>d. push_request ?E (TenantID example_config) ?u (snappy_Encode ?E d)) [''A'', ''B'']"
    by (simp add: example_config_sel example_environment_sel example_Encode_def)
  have net: "\<forall>k. 0 < k \<and> k \<le> length [?r1, ?r2] \<longrightarrow>
      (\<exists>resp. network ?E ([] @ take k [?r1, ?r2]) = Inr resp \<and> StatusCode resp sdiv 100 = 2)"
    by (simp add: example_environment_sel always_ok_def ok_response_def sdiv_100_eq_2)
  note t = WriteSeries_batches [OF nc B u m reqs net example_codec]
  from t have run: "\<exists>code. WriteSeries ?E ?c [ts1, ts2, ts3] [] =
      Some (Return (code, None), [] @ [?r1, ?r2])"
    by (elim conjE)
  from t have cnt: "int (length [?r1, ?r2]) =
      \<lceil>real (length [ts1, ts2, ts3]) / real_of_int (WriteBatchSize example_config)\<rceil>"
    by (elim conjE)
  from t have bodies: "\<forall>i<length [?r1, ?r2].
      Option.bind (example_Decode (ReqBody ([?r1, ?r2] ! i))) example_Unmarshal =
        Some \<lparr>Timeseries =
          slice [ts1, ts2, ts3] (i * nat (WriteBatchSize example_config))
            (min ((i + 1) * nat (WriteBatchSize example_config)) (length [ts1, ts2, ts3]))\<rparr>"
    by (elim conjE)
  from run example_run have run': "WriteSeries ?E ?c [ts1, ts2, ts3] [] =
      Some (Return (200, None), [?r1, ?r2])"
    by simp
  from bodies [rule_format, of 0] bodies [rule_format, of 1]
  have "Option.bind (example_Decode (ReqBody ?r1)) example_Unmarshal = Some \<lparr>Timeseries = [ts1, ts2]\<rparr>"
    and "Option.bind (example_Decode (ReqBody ?r2)) example_Unmarshal = Some \<lparr>Timeseries = [ts3]\<rparr>"
    by (simp_all add: slice_def example_config_sel)
  then show ?thesis using nc B u m run' cnt by simp
qed

text \<open>
  C7: for a client built by \<open>NewClient\<close> with a batch size of at least 1 (the data model of
  the specification: a positive integer) and a sequence that is not empty, let every
  batch request succeed with a 2xx status: each batch marshals, the push URL parses, and
  the request of each batch, sent after the requests of the batches before it, is
  answered with a 2xx status. Then \<open>WriteSeries\<close> returns a nil error and the status code
  of the answer to the last request, the request of the last batch.
\<close>

theorem WriteSeries_success:
  assumes "NewClient E config = Inr c"
    and "1 \<le> WriteBatchSize config"
    and "series \<noteq> []"
    and "url_Parse E (push_url c) = Inr u"
    and "list_all2 (\<lambda>batch d. proto_Marshal E \<lparr>Timeseries = batch\<rparr> = Inr d)
           (batches (nat (WriteBatchSize config)) series) ds"
    and "reqs = map (\<lambda>d. push_request E (TenantID config) u (snappy_Encode E d)) ds"
    and "\<forall>k. 0 < k \<and> k \<le> length reqs \<longrightarrow>
           (\<exists>resp. network E (w @ take k reqs) = Inr resp \<and> StatusCode resp sdiv 100 = 2)"
  shows "reqs \<noteq> [] \<and>
     (\<exists>resp. network E (w @ reqs) = Inr resp \<and> StatusCode resp sdiv 100 = 2 \<and>
        WriteSeries E c series w = Some (Return (StatusCode resp, None), w @ reqs))"
proof -
  let ?b = "nat (WriteBatchSize config)"
  let ?bs = "batches ?b series"
  have b: "0 < ?b" using assms(2) by simp
  have ne: "?bs \<noteq> []" using batches_step [OF b assms(3)] by simp
  note wc = NewClient_Inr(1) [OF assms(1)]
  have len: "length reqs = length ?bs"
    using list_all2_lengthD [OF assms(5)] assms(6) by simp
  then have reqs: "reqs \<noteq> []" using ne by auto
  from send_batches_ok [OF wc assms(4,5,6,7), of 0] ne obtain code resp where
    run: "send_batches E c ?bs 0 w = ((code, None), w @ reqs)"
    and last: "network E (w @ reqs) = Inr resp" "code = StatusCode resp"
    by auto
  have "0 < length reqs \<and> length reqs \<le> length reqs" using reqs by simp
  then have "\<exists>resp. network E (w @ take (length reqs) reqs) = Inr resp \<and>
      StatusCode resp sdiv 100 = 2"
    using assms(7) by blast
  then have ok: "StatusCode resp sdiv 100 = 2" using last(1) by simp
  have "WriteSeries E c series w = Some (Return (StatusCode resp, None), w @ reqs)"
    using WriteSeries_send_batches [OF assms(1,2), of series w] run last(2) by simp
  then show ?thesis using reqs last(1) ok by blast
qed

text \<open>
  The example run: both requests are answered with 200, and the result is 200 with a
  nil error.
\<close>

theorem WriteSeries_success_witness:
  "NewClient (example_environment always_ok) example_config =
     Inr (example_client (example_environment always_ok) example_config) \<and>
   1 \<le> WriteBatchSize example_config \<and> [ts1, ts2, ts3] \<noteq> [] \<and>
   url_Parse (example_environment always_ok)
     (push_url (example_client (example_environment always_ok) example_config)) =
     Inr ''http://mimir:8080/api/v1/push'' \<and>
   list_all2 (\<lambda>batch d. proto_Marshal (example_environment always_ok) \<lparr>Timeseries = batch\<rparr> = Inr d)
     (batches (nat (WriteBatchSize example_config)) [ts1, ts2, ts3]) [''A'', ''B''] \<and>
   network (example_environment always_ok)
       [push_request (example_environment always_ok) ''anonymous''
          ''http://mimir:8080/api/v1/push'' ''sA'',
        push_request (example_environment always_ok) ''anonymous''
          ''http://mimir:8080/api/v1/push'' ''sB''] = Inr ok_response \<and>
   StatusCode ok_response sdiv 100 = 2 \<and>
   WriteSeries (example_environment always_ok)
     (example_client (example_environment always_ok) example_config) [ts1, ts2, ts3] [] =
     Some (Return (StatusCode ok_response, None),
       [push_request (example_environment always_ok) ''anonymous''
          ''http://mimir:8080/api/v1/push'' ''sA'',
        push_request (example_environment always_ok) ''anonymous''
          ''http://mimir:8080/api/v1/push'' ''sB''])"
proof -
  let ?E = "example_environment always_ok"
  let ?c = "example_client ?E example_config"
  let ?u = "''http://mimir:8080/api/v1/push''"
  let ?r1 = "push_request ?E ''anonymous'' ?u ''sA''"
  let ?r2 = "push_request ?E ''anonymous'' ?u ''sB''"
  have nc: "NewClient ?E example_config = Inr ?c"
    using example_NewClient [of always_ok 2] by (simp add: example_config_def)
  have B: "1 \<le> WriteBatchSize example_config" by (simp add: example_config_sel)
  have ne: "[ts1, ts2, ts3] \<noteq> []" by simp
  have u: "url_Parse ?E (push_url ?c) = Inr ?u"
    by (simp add: example_environment_sel push_url_def example_client_sel example_config_sel
        URLValue_String_def)
  have m: "list_all2 (\<lambda>batch d. proto_Marshal ?E \<lparr>Timeseries = batch\<rparr> = Inr d)
      (batches (nat (WriteBatchSize example_config)) [ts1, ts2, ts3]) [''A'', ''B'']"
    by (simp add: example_config_sel example_batches example_environment_sel example_Marshal_def)
  have reqs: "[?r1, ?r2] =
      map (\<lambda>d. push_request ?E (TenantID example_config) ?u (snappy_Encode ?E d)) [''A'', ''B'']"
    by (simp add: example_config_sel example_environment_sel example_Encode_def)
  have net: "\<forall>k. 0 < k \<and> k \<le> length [?r1, ?r2] \<longrightarrow>
      (\<exists>resp. network ?E ([] @ take k [?r1, ?r2]) = Inr resp \<and> StatusCode resp sdiv 100 = 2)"
    by (simp add: example_environment_sel always_ok_def ok_response_def sdiv_100_eq_2)
  have last: "network ?E [?r1, ?r2] = Inr ok_response"
    by (simp add: example_environment_sel always_ok_def)
  from WriteSeries_success [OF nc B ne u m reqs net] last
  have "StatusCode ok_response sdiv 100 = 2"
    and "WriteSeries ?E ?c [ts1, ts2, ts3] [] =
      Some (Return (StatusCode ok_response, None), [?r1, ?r2])"
    by auto
  then show ?thesis using nc B ne u m last by simp
qed




text \<open>
  C8: for a client built by \<open>NewClient\<close> with a batch size of at least 1, take any batch
  \<open>j\<close> of the input such that the batches before it succeed (the call on them returns a
  nil error, leaving the world \<open>w1\<close>). If the serialization of batch \<open>j\<close> fails, or its
  request cannot be built (the URL does not parse), \<open>WriteSeries\<close> returns status code 0
  with that error and sends nothing more; if the request is sent and the transport
  fails with no response, \<open>WriteSeries\<close> returns status code 0 with the transport error
  (in the \<open>*url.Error\<close> of \<open>http.Client.Do\<close>) and that request is the last one.
\<close>

theorem WriteSeries_abort:
  assumes "NewClient E config = Inr c"
    and "1 \<le> WriteBatchSize config"
    and "j * nat (WriteBatchSize config) < length series"
    and "WriteSeries E c (take (j * nat (WriteBatchSize config)) series) w =
           Some (Return (code, None), w1)"
    and "batch = take (nat (WriteBatchSize config)) (drop (j * nat (WriteBatchSize config)) series)"
  shows "(proto_Marshal E \<lparr>Timeseries = batch\<rparr> = Inl e \<longrightarrow>
            WriteSeries E c series w = Some (Return (0, Some e), w1)) \<and>
         (\<forall>d. proto_Marshal E \<lparr>Timeseries = batch\<rparr> = Inr d \<and>
              url_Parse E (push_url c) = Inl e \<longrightarrow>
            WriteSeries E c series w = Some (Return (0, Some e), w1)) \<and>
         (\<forall>d u. proto_Marshal E \<lparr>Timeseries = batch\<rparr> = Inr d \<and>
              url_Parse E (push_url c) = Inr u \<and>
              network E (w1 @ [push_request E (TenantID config) u (snappy_Encode E d)]) = Inl e \<longrightarrow>
            WriteSeries E c series w =
              Some (Return (0, Some (url_Error e)),
                w1 @ [push_request E (TenantID config) u (snappy_Encode E d)]))"
proof -
  note wc = NewClient_Inr(1) [OF assms(1)]
  note step = WriteSeries_after_prefix [OF assms(1-4), folded assms(5)]
  show ?thesis
    by (simp add: step sendWriteRequest_first [OF wc])
qed

text \<open>
  Two batches of one series: the first is sent and succeeds, the second cannot be
  marshalled. And a first batch whose connection is refused.
\<close>

theorem WriteSeries_abort_witness:
  "NewClient (example_environment always_ok) (example_config\<lparr>WriteBatchSize := 1\<rparr>) =
     Inr (example_client (example_environment always_ok) (example_config\<lparr>WriteBatchSize := 1\<rparr>)) \<and>
   WriteSeries (example_environment always_ok)
     (example_client (example_environment always_ok) (example_config\<lparr>WriteBatchSize := 1\<rparr>))
     [ts3] [] =
     Some (Return (200, None),
       [push_request (example_environment always_ok) ''anonymous''
          ''http://mimir:8080/api/v1/push'' ''sB'']) \<and>
   proto_Marshal (example_environment always_ok) \<lparr>Timeseries = [ts1]\<rparr> =
     Inl (library_error ''proto: cannot marshal'') \<and>
   WriteSeries (example_environment always_ok)
     (example_client (example_environment always_ok) (example_config\<lparr>WriteBatchSize := 1\<rparr>))
     [ts3, ts1] [] =
     Some (Return (0, Some (library_error ''proto: cannot marshal'')),
       [push_request (example_environment always_ok) ''anonymous''
          ''http://mimir:8080/api/v1/push'' ''sB'']) \<and>
   network (example_environment connection_refused)
     [push_request (example_environment connection_refused) ''anonymous''
        ''http://mimir:8080/api/v1/push'' ''sB''] =
     Inl (library_error ''dial tcp: connection refused'') \<and>
   WriteSeries (example_environment connection_refused)
     (example_client (example_environment connection_refused)
        (example_config\<lparr>WriteBatchSize := 1\<rparr>))
     [ts3, ts1] [] =
     Some (Return (0, Some (url_Error (library_error ''dial tcp: connection refused''))),
       [push_request (example_environment connection_refused) ''anonymous''
          ''http://mimir:8080/api/v1/push'' ''sB''])"
proof -
  let ?cfg = "example_config\<lparr>WriteBatchSize := 1\<rparr>"
  let ?E = "example_environment always_ok"
  let ?c = "example_client ?E ?cfg"
  let ?r = "push_request ?E ''anonymous'' ''http://mimir:8080/api/v1/push'' ''sB''"
  let ?D = "example_environment connection_refused"
  let ?cD = "example_client ?D ?cfg"
  let ?rD = "push_request ?D ''anonymous'' ''http://mimir:8080/api/v1/push'' ''sB''"
  have nc: "NewClient ?E ?cfg = Inr ?c" and ncD: "NewClient ?D ?cfg = Inr ?cD"
    by (rule example_NewClient)+
  have B: "1 \<le> WriteBatchSize ?cfg" by simp
  note b1 = example_batches(2)
  have pre: "WriteSeries ?E ?c (take (1 * nat (WriteBatchSize ?cfg)) [ts3, ts1]) [] =
      Some (Return (200, None), [?r])"
    unfolding WriteSeries_send_batches [OF nc B]
    by (simp add: b1 sendWriteRequest_first [OF example_client_sel(1)] redirect_status_def example_client_sel
        example_config_sel example_environment_sel URLValue_String_def push_url_def
        example_Marshal_def example_Encode_def ok_response_def always_ok_def sdiv_100_eq_2)
  have m: "proto_Marshal ?E \<lparr>Timeseries = [ts1]\<rparr> = Inl (library_error ''proto: cannot marshal'')"
    by (simp add: example_environment_sel example_Marshal_def ts1_def ts3_def)
  have j: "1 * nat (WriteBatchSize ?cfg) < length [ts3, ts1]" by simp
  have batch: "[ts1] = take (nat (WriteBatchSize ?cfg)) (drop (1 * nat (WriteBatchSize ?cfg)) [ts3, ts1])"
    by simp
  from WriteSeries_abort [OF nc B j pre batch, THEN conjunct1, rule_format, OF m]
  have r1: "WriteSeries ?E ?c [ts3, ts1] [] =
      Some (Return (0, Some (library_error ''proto: cannot marshal'')), [?r])" .
  have preD: "WriteSeries ?D ?cD (take (0 * nat (WriteBatchSize ?cfg)) [ts3, ts1]) [] =
      Some (Return (0, None), [])"
    by (simp add: WriteSeries_def WriteSeries_loop_Nil)
  have jD: "0 * nat (WriteBatchSize ?cfg) < length [ts3, ts1]" by simp
  have batchD: "[ts3] = take (nat (WriteBatchSize ?cfg)) (drop (0 * nat (WriteBatchSize ?cfg)) [ts3, ts1])"
    by simp
  have net: "network ?D [?rD] = Inl (library_error ''dial tcp: connection refused'')"
    by (simp add: example_environment_sel connection_refused_def)
  have h: "proto_Marshal ?D \<lparr>Timeseries = [ts3]\<rparr> = Inr ''B'' \<and>
      url_Parse ?D (push_url ?cD) = Inr ''http://mimir:8080/api/v1/push'' \<and>
      network ?D ([] @ [push_request ?D (TenantID ?cfg) ''http://mimir:8080/api/v1/push''
         (snappy_Encode ?D ''B'')]) = Inl (library_error ''dial tcp: connection refused'')"
    by (simp add: example_environment_sel example_Marshal_def ts1_def ts2_def ts3_def push_url_def
        example_client_sel example_config_sel URLValue_String_def connection_refused_def)
  from WriteSeries_abort [OF ncD B jD preD batchD, THEN conjunct2, THEN conjunct2, rule_format, OF h]
  have r2: "WriteSeries ?D ?cD [ts3, ts1] [] =
      Some (Return (0, Some (url_Error (library_error ''dial tcp: connection refused''))), [?rD])"
    by (simp add: example_environment_sel example_config_sel example_Encode_def)
  have pre': "WriteSeries ?E ?c [ts3] [] = Some (Return (200, None), [?r])"
    using pre by simp
  show ?thesis using nc pre' m r1 net r2 by simp
qed





text \<open>In the examples an answer with status 200 ends the call of \<open>http.Client.Do\<close>.\<close>

lemma example_Do:
  "http_Client_Do (example_environment (answer_body d))
     (tenant_client (example_environment (answer_body d)) t) req w =
     (Inr \<lparr>Status = ''200 OK'', StatusCode = 200, RespHeader = Map.empty,
           Body = Reader d None True\<rparr>,
      w @ [with_tenant (example_environment (answer_body d)) t req])"
  by (rule Do_final) (simp_all add: example_environment_sel answer_body_def redirect_status_def)

text \<open>With batch size 0 every iteration sends an empty batch and leaves the sequence as it is.\<close>

lemma WriteSeries_loop_zero:
  assumes "WriteSeries_loop E c series l w = Some y"
    and "WriteBatchSize (cfg c) = 0"
    and "\<forall>w'. snd (fst (sendWriteRequest E c \<lparr>Timeseries = []\<rparr> w')) = None"
    and "series \<noteq> []"
  shows False
  using assms(2-4)
proof (induction rule: WriteSeries_loop.raw_induct [OF _ assms(1)])
  case (1 f E c series l w y)
  have "util_math_Min (int (length series)) 0 = 0"
    by (simp add: util_math_Min_def)
  moreover obtain code w' where "sendWriteRequest E c \<lparr>Timeseries = []\<rparr> w = ((code, None), w')"
    using "1.prems" by (metis prod.collapse)
  ultimately have "f E c series code w' = Some y"
    using "1.hyps" "1.prems" by simp
  then show ?case using "1.IH" "1.prems" by blast
qed

lemma WriteSeries_loop_negative:
  assumes "WriteBatchSize (cfg c) < 0" "series \<noteq> []"
  shows "WriteSeries_loop E c series l w = Some (Panic ''slice bounds out of range'', w)"
proof -
  have "util_math_Min (int (length series)) (WriteBatchSize (cfg c)) < 0"
    using assms by (simp add: util_math_Min_def)
  then show ?thesis
    using assms(2) by (subst WriteSeries_loop.simps) (simp add: Let_def)
qed

text \<open>
  C9, as the code has it. With a batch size of at least 1 the loop of \<open>WriteSeries\<close>
  returns on every input, and an iteration leaves fewer series than it found. With batch
  size 0 and an input that is not empty, an iteration removes no series, and the loop
  never returns as long as the requests (of empty batches) succeed. With a negative
  batch size and an input that is not empty, the slice expression of the first
  iteration panics: nothing is sent and the loop ends there.
\<close>

theorem WriteSeries_loop_progress:
  "(1 \<le> WriteBatchSize (cfg c) \<longrightarrow>
      (\<exists>r. WriteSeries_loop E c series l w = Some r) \<and>
      (series \<noteq> [] \<longrightarrow>
         length (drop (nat (util_math_Min (int (length series)) (WriteBatchSize (cfg c)))) series)
           < length series)) \<and>
   (WriteBatchSize (cfg c) = 0 \<and> series \<noteq> [] \<longrightarrow>
      drop (nat (util_math_Min (int (length series)) (WriteBatchSize (cfg c)))) series = series \<and>
      ((\<forall>w'. snd (fst (sendWriteRequest E c \<lparr>Timeseries = []\<rparr> w')) = None) \<longrightarrow>
         WriteSeries_loop E c series l w = None)) \<and>
   (WriteBatchSize (cfg c) < 0 \<and> series \<noteq> [] \<longrightarrow>
      WriteSeries_loop E c series l w = Some (Panic ''slice bounds out of range'', w))"
proof (intro conjI impI)
  assume "1 \<le> WriteBatchSize (cfg c)"
  then show "\<exists>r. WriteSeries_loop E c series l w = Some r"
    by (simp add: WriteSeries_loop_batches split: prod.splits)
next
  assume "1 \<le> WriteBatchSize (cfg c)" "series \<noteq> []"
  then show "length (drop (nat (util_math_Min (int (length series)) (WriteBatchSize (cfg c)))) series)
      < length series"
    by (auto simp add: util_math_Min_def)
next
  assume "WriteBatchSize (cfg c) = 0 \<and> series \<noteq> []"
  then show "drop (nat (util_math_Min (int (length series)) (WriteBatchSize (cfg c)))) series = series"
    by (simp add: util_math_Min_def)
next
  assume "WriteBatchSize (cfg c) = 0 \<and> series \<noteq> []"
    and "\<forall>w'. snd (fst (sendWriteRequest E c \<lparr>Timeseries = []\<rparr> w')) = None"
  then show "WriteSeries_loop E c series l w = None"
    using WriteSeries_loop_zero [of E c series l w] by (cases "WriteSeries_loop E c series l w") auto
next
  assume "WriteBatchSize (cfg c) < 0 \<and> series \<noteq> []"
  then show "WriteSeries_loop E c series l w = Some (Panic ''slice bounds out of range'', w)"
    by (simp add: WriteSeries_loop_negative)
qed

text \<open>
  Batch size 2 on three series: the loop returns. Batch size 0 with a marshaller that
  accepts the empty batch and a network that always answers 200: the loop never
  returns. Batch size -1: the panic.
\<close>

theorem WriteSeries_loop_progress_witness:
  "1 \<le> WriteBatchSize (cfg (example_client (example_environment always_ok) example_config)) \<and>
   (\<exists>r. WriteSeries_loop (example_environment always_ok)
      (example_client (example_environment always_ok) example_config) [ts1, ts2, ts3] 0 [] = Some r) \<and>
   WriteBatchSize (cfg (example_client
      ((example_environment always_ok)\<lparr>proto_Marshal := \<lambda>r. Inr []\<rparr>)
      (example_config\<lparr>WriteBatchSize := 0\<rparr>))) = 0 \<and>
   (\<forall>w'. snd (fst (sendWriteRequest ((example_environment always_ok)\<lparr>proto_Marshal := \<lambda>r. Inr []\<rparr>)
      (example_client ((example_environment always_ok)\<lparr>proto_Marshal := \<lambda>r. Inr []\<rparr>)
         (example_config\<lparr>WriteBatchSize := 0\<rparr>))
      \<lparr>Timeseries = []\<rparr> w')) = None) \<and>
   WriteSeries_loop ((example_environment always_ok)\<lparr>proto_Marshal := \<lambda>r. Inr []\<rparr>)
      (example_client ((example_environment always_ok)\<lparr>proto_Marshal := \<lambda>r. Inr []\<rparr>)
         (example_config\<lparr>WriteBatchSize := 0\<rparr>)) [ts3] 0 [] = None \<and>
   WriteBatchSize (cfg (example_client (example_environment always_ok)
      (example_config\<lparr>WriteBatchSize := - 1\<rparr>))) < 0 \<and>
   WriteSeries_loop (example_environment always_ok)
      (example_client (example_environment always_ok) (example_config\<lparr>WriteBatchSize := - 1\<rparr>))
      [ts3] 0 [] = Some (Panic ''slice bounds out of range'', [])"
proof -
  let ?E = "example_environment always_ok"
  let ?Em = "?E\<lparr>proto_Marshal := \<lambda>r. Inr []\<rparr>"
  let ?ct = "example_client ?E example_config"
  let ?cz = "example_client ?Em (example_config\<lparr>WriteBatchSize := 0\<rparr>)"
  let ?cn = "example_client ?E (example_config\<lparr>WriteBatchSize := - 1\<rparr>)"
  have B2: "1 \<le> WriteBatchSize (cfg ?ct)" by (simp add: example_client_sel example_config_sel)
  have B0: "WriteBatchSize (cfg ?cz) = 0" by (simp add: example_client_sel)
  have Bn: "WriteBatchSize (cfg ?cn) < 0" by (simp add: example_client_sel)
  have ok: "\<forall>w'. snd (fst (sendWriteRequest ?Em ?cz \<lparr>Timeseries = []\<rparr> w')) = None"
    by (simp add: sendWriteRequest_first [OF example_client_sel(1)] redirect_status_def example_environment_sel
        always_ok_def ok_response_def sdiv_100_eq_2)
  have ne: "[ts3] \<noteq> []" by simp
  note t2 = WriteSeries_loop_progress [of ?ct ?E "[ts1, ts2, ts3]" 0 "[]"]
  note t0 = WriteSeries_loop_progress [of ?cz ?Em "[ts3]" 0 "[]"]
  note tn = WriteSeries_loop_progress [of ?cn ?E "[ts3]" 0 "[]"]
  from t2 B2 have r2: "\<exists>r. WriteSeries_loop ?E ?ct [ts1, ts2, ts3] 0 [] = Some r"
    by (elim conjE) simp
  from t0 [THEN conjunct2, THEN conjunct1, rule_format, OF conjI [OF B0 ne], THEN conjunct2,
      rule_format, OF ok [rule_format]]
  have r0: "WriteSeries_loop ?Em ?cz [ts3] 0 [] = None" .
  from tn [THEN conjunct2, THEN conjunct2, rule_format, OF conjI [OF Bn ne]]
  have rn: "WriteSeries_loop ?E ?cn [ts3] 0 [] = Some (Panic ''slice bounds out of range'', [])" .
  show ?thesis using B2 r2 B0 ok r0 Bn rn by (intro conjI)
qed

text \<open>
  With batch size -1 the call on one series does not loop: it ends at once with the
  panic of the slice expression.
\<close>

theorem WriteSeries_loop_progress_counterexample:
  "WriteBatchSize (cfg (example_client (example_environment always_ok)
      (example_config\<lparr>WriteBatchSize := - 1\<rparr>))) \<le> 0 \<and>
   [ts3] \<noteq> [] \<and>
   WriteSeries (example_environment always_ok)
      (example_client (example_environment always_ok) (example_config\<lparr>WriteBatchSize := - 1\<rparr>))
      [ts3] [] = Some (Panic ''slice bounds out of range'', []) \<and>
   WriteSeries (example_environment always_ok)
      (example_client (example_environment always_ok) (example_config\<lparr>WriteBatchSize := - 1\<rparr>))
      [ts3] [] \<noteq> None"
  by (simp add: WriteSeries_def WriteSeries_loop_negative example_client_sel)

text \<open>
  C4: when the write URL or the read URL of the configuration is nil, \<open>NewClient\<close>
  returns no client and an error that says which endpoint has not been set (the write
  endpoint is checked first).
\<close>

theorem NewClient_missing_endpoint:
  assumes "WriteBaseEndpoint config = None \<or> ReadBaseEndpoint config = None"
  shows "NewClient E config =
     Inl (errors_New
       (if WriteBaseEndpoint config = None then ''the write endpoint has not been set''
        else ''the read endpoint has not been set''))"
  using assms by (auto simp add: NewClient_def Let_def)

text \<open>The example configuration without its write URL, and without its read URL.\<close>

theorem NewClient_missing_endpoint_witness:
  "WriteBaseEndpoint (example_config\<lparr>WriteBaseEndpoint := None\<rparr>) = None \<and>
   NewClient (example_environment always_ok) (example_config\<lparr>WriteBaseEndpoint := None\<rparr>) =
     Inl (errors_New ''the write endpoint has not been set'') \<and>
   ReadBaseEndpoint (example_config\<lparr>ReadBaseEndpoint := None\<rparr>) = None \<and>
   NewClient (example_environment always_ok) (example_config\<lparr>ReadBaseEndpoint := None\<rparr>) =
     Inl (errors_New ''the read endpoint has not been set'')"
proof -
  have w: "WriteBaseEndpoint (example_config\<lparr>WriteBaseEndpoint := None\<rparr>) = None \<or>
      ReadBaseEndpoint (example_config\<lparr>WriteBaseEndpoint := None\<rparr>) = None"
    and r: "WriteBaseEndpoint (example_config\<lparr>ReadBaseEndpoint := None\<rparr>) = None \<or>
      ReadBaseEndpoint (example_config\<lparr>ReadBaseEndpoint := None\<rparr>) = None"
    by simp_all
  show ?thesis
    using NewClient_missing_endpoint [OF w, of "example_environment always_ok"]
      NewClient_missing_endpoint [OF r, of "example_environment always_ok"]
    by (simp add: example_config_sel)
qed

text \<open>
  C3: when the query API returns, with a nil error, a value whose declared type is not
  the matrix type, or a value that is not a \<open>model.Matrix\<close>, \<open>QueryRange\<close> returns an error
  and no matrix; a matrix is returned as it is; and a matrix that \<open>QueryRange\<close> returns is
  the value of the API itself. (For a nil value with a nil error the call of \<open>Type\<close>
  panics.)
\<close>

theorem QueryRange_matrix_only:
  assumes "httpAPI_QueryRange E (readClient c) query \<lparr>Start = start, End = end, Step = step\<rparr> w =
             ((Some v, warnings, None), w')"
  shows "(Value_Type v \<noteq> ValMatrix \<longrightarrow>
            QueryRange E c query start end step w =
              (Return (Inl (errors_New ''was expecting to get a Matrix'')), w')) \<and>
         (Value_Type v = ValMatrix \<and> assert_Matrix v = None \<longrightarrow>
            QueryRange E c query start end step w =
              (Return (Inl (errors_New ''failed to cast type to Matrix'')), w')) \<and>
         (\<forall>m. v = MatrixValue m \<longrightarrow>
            QueryRange E c query start end step w = (Return (Inr m), w')) \<and>
         (\<forall>m w''. QueryRange E c query start end step w = (Return (Inr m), w'') \<longrightarrow>
            v = MatrixValue m)"
  using assms by (cases v) (auto simp add: QueryRange_def)

text \<open>The example query answered with a vector, with a foreign value, and with a matrix.\<close>

theorem QueryRange_matrix_only_witness:
  "QueryRange (example_environment (answer_body ''vector''))
     (example_client (example_environment (answer_body ''vector'')) example_config)
     ''up'' 0 60 15 [] =
     (Return (Inl (errors_New ''was expecting to get a Matrix'')),
      [\<lparr>Method = ''POST'', URL = ''http://mimir:8080/prometheus/api/v1/query_range'',
        Header = [''X-Scope-OrgID'' \<mapsto> [''anonymous'']], ReqBody = ''up''\<rparr>]) \<and>
   QueryRange (example_environment (answer_body ''other''))
     (example_client (example_environment (answer_body ''other'')) example_config)
     ''up'' 0 60 15 [] =
     (Return (Inl (errors_New ''failed to cast type to Matrix'')),
      [\<lparr>Method = ''POST'', URL = ''http://mimir:8080/prometheus/api/v1/query_range'',
        Header = [''X-Scope-OrgID'' \<mapsto> [''anonymous'']], ReqBody = ''up''\<rparr>]) \<and>
   QueryRange (example_environment (answer_body ''matrix''))
     (example_client (example_environment (answer_body ''matrix'')) example_config)
     ''up'' 0 60 15 [] =
     (Return (Inr [\<lparr>Metric = [''__name__'' \<mapsto> ''up''], Values = [(1000, 0x3FF0000000000000)]\<rparr>]),
      [\<lparr>Method = ''POST'', URL = ''http://mimir:8080/prometheus/api/v1/query_range'',
        Header = [''X-Scope-OrgID'' \<mapsto> [''anonymous'']], ReqBody = ''up''\<rparr>])"
proof -
  let ?q = "\<lparr>Method = ''POST'', URL = ''http://mimir:8080/prometheus/api/v1/query_range'',
        Header = [''X-Scope-OrgID'' \<mapsto> [''anonymous'']], ReqBody = ''up''\<rparr>"
  have api: "httpAPI_QueryRange (example_environment (answer_body d))
      (readClient (example_client (example_environment (answer_body d)) example_config))
      ''up'' \<lparr>Start = 0, End = 60, Step = 15\<rparr> [] =
      ((Some (example_result (Reader d None True)), [], None), [?q])" for d
    by (simp add: httpAPI_QueryRange_def example_client_sel example_environment_sel
        example_config_sel example_query_def example_Do with_tenant_def Header_Set_def
        URLValue_String_def)
  have v: "Value_Type (example_result (Reader ''vector'' None True)) \<noteq> ValMatrix"
    and o: "Value_Type (example_result (Reader ''other'' None True)) = ValMatrix \<and>
      assert_Matrix (example_result (Reader ''other'' None True)) = None"
    and m: "example_result (Reader ''matrix'' None True) =
      MatrixValue [\<lparr>Metric = [''__name__'' \<mapsto> ''up''], Values = [(1000, 0x3FF0000000000000)]\<rparr>]"
    by (simp_all add: example_result_def)
  from QueryRange_matrix_only [OF api, THEN conjunct1, rule_format, OF v]
    QueryRange_matrix_only [OF api, THEN conjunct2, THEN conjunct1, rule_format, OF o]
    QueryRange_matrix_only [OF api, THEN conjunct2, THEN conjunct2, THEN conjunct1, rule_format, OF m]
  show ?thesis by (intro conjI)
qed

text \<open>Every request that a library sends through the client of a tenant carries the header.\<close>

lemma run_io_tenant:
  assumes "run_io (http_Client_Do E (tenant_client E t)) io w = (a, w')"
  shows "\<exists>sent. w' = w @ sent \<and>
           (\<forall>r\<in>set sent. Header_Get E (Header r) ''X-Scope-OrgID'' = t)"
  using assms
proof (induction io arbitrary: w)
  case (Done x)
  then show ?case by simp
next
  case (Call req k)
  obtain res w1 where do: "http_Client_Do E (tenant_client E t) req w = (res, w1)"
    by (metis surj_pair)
  from Do_hops [OF do] obtain hops where hops: "w1 = w @ hops"
    "\<forall>r\<in>set hops. Header_Get E (Header r) ''X-Scope-OrgID'' = t"
    unfolding call_hops_def by blast
  from Call.prems do have "run_io (http_Client_Do E (tenant_client E t)) (k res) w1 = (a, w')"
    by simp
  from Call.IH [OF _ this] obtain sent where "w' = w1 @ sent"
    "\<forall>r\<in>set sent. Header_Get E (Header r) ''X-Scope-OrgID'' = t"
    by blast
  then show ?case
    using hops by (intro exI [of _ "hops @ sent"]) auto
qed

lemma sendWriteRequest_tenant:
  assumes "writeClient c = tenant_client E t"
  shows "\<exists>sent. snd (sendWriteRequest E c req w) = w @ sent \<and>
           (\<forall>r\<in>set sent. Header_Get E (Header r) ''X-Scope-OrgID'' = t)"
  using sendWriteRequest_wire [OF assms, of req w] by blast

lemma WriteSeries_loop_tenant:
  assumes "WriteSeries_loop E c series l w = Some y"
    and "writeClient c = tenant_client E t"
  shows "\<exists>sent. snd y = w @ sent \<and>
           (\<forall>r\<in>set sent. Header_Get E (Header r) ''X-Scope-OrgID'' = t)"
  using assms(2)
proof (induction rule: WriteSeries_loop.raw_induct [OF _ assms(1)])
  case (1 f E c series l w y)
  let ?end = "util_math_Min (int (length series)) (WriteBatchSize (cfg c))"
  let ?req = "\<lparr>Timeseries = take (nat ?end) series\<rparr>"
  show ?case
  proof (cases "series = [] \<or> ?end < 0")
    case True
    then have "snd y = w" using "1.hyps" by (auto simp add: Let_def split: if_splits)
    then show ?thesis by simp
  next
    case False
    obtain code err w1 where s: "sendWriteRequest E c ?req w = ((code, err), w1)"
      by (metis surj_pair)
    from sendWriteRequest_tenant [OF "1.prems", of ?req w] s obtain sent1 where
      s1: "w1 = w @ sent1" "\<forall>r\<in>set sent1. Header_Get E (Header r) ''X-Scope-OrgID'' = t"
      by auto
    show ?thesis
    proof (cases err)
      case None
      then have "f E c (drop (nat ?end) series) code w1 = Some y"
        using "1.hyps" False s by (simp add: Let_def)
      from "1.IH" [OF this "1.prems"] obtain sent2 where
        "snd y = w1 @ sent2" "\<forall>r\<in>set sent2. Header_Get E (Header r) ''X-Scope-OrgID'' = t"
        by blast
      then show ?thesis using s1 by (intro exI [of _ "sent1 @ sent2"]) auto
    next
      case (Some e)
      then have "snd y = w1" using "1.hyps" False s by (auto simp add: Let_def)
      then show ?thesis using s1 by blast
    qed
  qed
qed

lemma QueryRange_world:
  "snd (QueryRange E c query start end step w) =
     snd (httpAPI_QueryRange E (readClient c) query \<lparr>Start = start, End = end, Step = step\<rparr> w)"
  by (simp add: QueryRange_def split: prod.splits option.splits)

text \<open>
  C6: the round tripper of the client hands to the wrapped transport the request with
  the header \<open>X-Scope-OrgID\<close> set to the tenant and to nothing else (method, URL, body
  and the other headers are the ones of the request it was given) and returns what the
  wrapped transport returns. For a client built by \<open>NewClient\<close>, every request that a
  call of \<open>sendWriteRequest\<close>, a returning call of \<open>WriteSeries\<close> or a call of \<open>QueryRange\<close>
  puts on the wire carries the header with the tenant of the configuration.
\<close>

theorem RoundTrip_tenant_header:
  "RoundTrip E crt req w =
     rt crt (req\<lparr>Header :=
       (Header req)(CanonicalMIMEHeaderKey E ''X-Scope-OrgID'' \<mapsto> [tenantID crt])\<rparr>) w \<and>
   Header_Get E ((Header req)(CanonicalMIMEHeaderKey E ''X-Scope-OrgID'' \<mapsto> [tenantID crt]))
     ''X-Scope-OrgID'' = tenantID crt \<and>
   (\<forall>key. key \<noteq> CanonicalMIMEHeaderKey E ''X-Scope-OrgID'' \<longrightarrow>
      ((Header req)(CanonicalMIMEHeaderKey E ''X-Scope-OrgID'' \<mapsto> [tenantID crt])) key =
        Header req key) \<and>
   (NewClient E config = Inr c \<longrightarrow>
      (\<forall>wr. \<exists>sent. snd (sendWriteRequest E c wr w) = w @ sent \<and>
         (\<forall>r\<in>set sent. Header_Get E (Header r) ''X-Scope-OrgID'' = TenantID config)) \<and>
      (\<forall>series y. WriteSeries E c series w = Some y \<longrightarrow>
         (\<exists>sent. snd y = w @ sent \<and>
            (\<forall>r\<in>set sent. Header_Get E (Header r) ''X-Scope-OrgID'' = TenantID config))) \<and>
      (\<forall>query start end step.
         \<exists>sent. snd (QueryRange E c query start end step w) = w @ sent \<and>
           (\<forall>r\<in>set sent. Header_Get E (Header r) ''X-Scope-OrgID'' = TenantID config)))"
proof (intro conjI impI allI)
  show "RoundTrip E crt req w =
     rt crt (req\<lparr>Header :=
       (Header req)(CanonicalMIMEHeaderKey E ''X-Scope-OrgID'' \<mapsto> [tenantID crt])\<rparr>) w"
    by (simp add: RoundTrip_def Header_Set_def)
  show "Header_Get E ((Header req)(CanonicalMIMEHeaderKey E ''X-Scope-OrgID'' \<mapsto> [tenantID crt]))
     ''X-Scope-OrgID'' = tenantID crt"
    by (simp add: Header_Get_def)
  show "((Header req)(CanonicalMIMEHeaderKey E ''X-Scope-OrgID'' \<mapsto> [tenantID crt])) key =
        Header req key"
    if "key \<noteq> CanonicalMIMEHeaderKey E ''X-Scope-OrgID''" for key
    using that by simp
next
  fix wr
  assume nc: "NewClient E config = Inr c"
  show "\<exists>sent. snd (sendWriteRequest E c wr w) = w @ sent \<and>
         (\<forall>r\<in>set sent. Header_Get E (Header r) ''X-Scope-OrgID'' = TenantID config)"
    by (rule sendWriteRequest_tenant [OF NewClient_Inr(1) [OF nc]])
next
  fix series y
  assume nc: "NewClient E config = Inr c" and "WriteSeries E c series w = Some y"
  then show "\<exists>sent. snd y = w @ sent \<and>
            (\<forall>r\<in>set sent. Header_Get E (Header r) ''X-Scope-OrgID'' = TenantID config)"
    using WriteSeries_loop_tenant [OF _ NewClient_Inr(1) [OF nc], of series 0 w y]
    by (simp add: WriteSeries_def)
next
  fix query start "end" step
  assume nc: "NewClient E config = Inr c"
  obtain a w' where run: "run_io (http_Client_Do E (tenant_client E (TenantID config)))
      (v1_QueryRange E (endpoint (readClient c)) query \<lparr>Start = start, End = end, Step = step\<rparr>) w
      = (a, w')"
    by (metis surj_pair)
  then have "snd (QueryRange E c query start end step w) = w'"
    by (simp add: QueryRange_world httpAPI_QueryRange_def NewClient_Inr(3) [OF nc])
  then show "\<exists>sent. snd (QueryRange E c query start end step w) = w @ sent \<and>
           (\<forall>r\<in>set sent. Header_Get E (Header r) ''X-Scope-OrgID'' = TenantID config)"
    using run_io_tenant [OF run] by simp
qed

text \<open>
  One round trip of a push request, the two requests of the example run, and the
  request of the example query: each carries the tenant \<open>anonymous\<close>.
\<close>

theorem RoundTrip_tenant_header_witness:
  "RoundTrip (example_environment always_ok)
     \<lparr>tenantID = ''anonymous'', rt = http_DefaultTransport (example_environment always_ok)\<rparr>
     \<lparr>Method = ''POST'', URL = ''http://mimir:8080/api/v1/push'',
      Header = [''User-Agent'' \<mapsto> [''mimir-continuous-test'']], ReqBody = ''sB''\<rparr> [] =
     (Inr ok_response,
      [\<lparr>Method = ''POST'', URL = ''http://mimir:8080/api/v1/push'',
        Header = [''User-Agent'' \<mapsto> [''mimir-continuous-test''],
                  ''X-Scope-OrgID'' \<mapsto> [''anonymous'']],
        ReqBody = ''sB''\<rparr>]) \<and>
   NewClient (example_environment always_ok) example_config =
     Inr (example_client (example_environment always_ok) example_config) \<and>
   WriteSeries (example_environment always_ok)
     (example_client (example_environment always_ok) example_config) [ts1, ts2, ts3] [] =
     Some (Return (200, None),
       [push_request (example_environment always_ok) ''anonymous''
          ''http://mimir:8080/api/v1/push'' ''sA'',
        push_request (example_environment always_ok) ''anonymous''
          ''http://mimir:8080/api/v1/push'' ''sB'']) \<and>
   Header_Get (example_environment always_ok)
     (Header (push_request (example_environment always_ok) ''anonymous''
          ''http://mimir:8080/api/v1/push'' ''sA'')) ''X-Scope-OrgID'' = ''anonymous'' \<and>
   Header_Get (example_environment always_ok)
     (Header (push_request (example_environment always_ok) ''anonymous''
          ''http://mimir:8080/api/v1/push'' ''sB'')) ''X-Scope-OrgID'' = ''anonymous'' \<and>
   snd (QueryRange (example_environment (answer_body ''matrix''))
     (example_client (example_environment (answer_body ''matrix'')) example_config)
     ''up'' 0 60 15 []) =
     [\<lparr>Method = ''POST'', URL = ''http://mimir:8080/prometheus/api/v1/query_range'',
       Header = [''X-Scope-OrgID'' \<mapsto> [''anonymous'']], ReqBody = ''up''\<rparr>] \<and>
   Header_Get (example_environment (answer_body ''matrix''))
     (Header \<lparr>Method = ''POST'', URL = ''http://mimir:8080/prometheus/api/v1/query_range'',
       Header = [''X-Scope-OrgID'' \<mapsto> [''anonymous'']], ReqBody = ''up''\<rparr>)
     ''X-Scope-OrgID'' = ''anonymous''"
proof -
  let ?E = "example_environment always_ok"
  let ?c = "example_client ?E example_config"
  let ?crt = "\<lparr>tenantID = ''anonymous'', rt = http_DefaultTransport ?E\<rparr>"
  let ?req = "\<lparr>Method = ''POST'', URL = ''http://mimir:8080/api/v1/push'',
      Header = [''User-Agent'' \<mapsto> [''mimir-continuous-test'']], ReqBody = ''sB''\<rparr>"
  let ?r1 = "push_request ?E ''anonymous'' ''http://mimir:8080/api/v1/push'' ''sA''"
  let ?r2 = "push_request ?E ''anonymous'' ''http://mimir:8080/api/v1/push'' ''sB''"
  let ?F = "example_environment (answer_body ''matrix'')"
  let ?d = "example_client ?F example_config"
  let ?q = "\<lparr>Method = ''POST'', URL = ''http://mimir:8080/prometheus/api/v1/query_range'',
       Header = [''X-Scope-OrgID'' \<mapsto> [''anonymous'']], ReqBody = ''up''\<rparr>"
  have nc: "NewClient ?E example_config = Inr ?c"
    using example_NewClient [of always_ok 2] by (simp add: example_config_def)
  have ncF: "NewClient ?F example_config = Inr ?d"
    using example_NewClient [of "answer_body ''matrix''" 2] by (simp add: example_config_def)
  note t = RoundTrip_tenant_header [of ?E ?crt ?req "[]" example_config ?c]
  note tF = RoundTrip_tenant_header [of ?F ?crt ?req "[]" example_config ?d]
  from t have rt: "RoundTrip ?E ?crt ?req [] =
     (Inr ok_response,
      [\<lparr>Method = ''POST'', URL = ''http://mimir:8080/api/v1/push'',
        Header = [''User-Agent'' \<mapsto> [''mimir-continuous-test''],
                  ''X-Scope-OrgID'' \<mapsto> [''anonymous'']],
        ReqBody = ''sB''\<rparr>])"
    by (elim conjE) (simp add: http_DefaultTransport_def example_environment_sel always_ok_def)
  from t nc have "\<forall>series y. WriteSeries ?E ?c series [] = Some y \<longrightarrow>
         (\<exists>sent. snd y = [] @ sent \<and>
            (\<forall>r\<in>set sent. Header_Get ?E (Header r) ''X-Scope-OrgID'' = TenantID example_config))"
    by (elim conjE) (erule impE, assumption, elim conjE, assumption)
  from this [rule_format, OF example_run]
  have w: "Header_Get ?E (Header ?r1) ''X-Scope-OrgID'' = ''anonymous''"
    "Header_Get ?E (Header ?r2) ''X-Scope-OrgID'' = ''anonymous''"
    by (simp_all add: example_config_sel)
  have api: "snd (QueryRange ?F ?d ''up'' 0 60 15 []) = [?q]"
    by (simp add: QueryRange_world httpAPI_QueryRange_def example_client_sel
        example_environment_sel example_config_sel example_query_def example_Do
        with_tenant_def Header_Set_def URLValue_String_def)
  from tF ncF have "\<forall>query start end step.
         \<exists>sent. snd (QueryRange ?F ?d query start end step []) = [] @ sent \<and>
           (\<forall>r\<in>set sent. Header_Get ?F (Header r) ''X-Scope-OrgID'' = TenantID example_config)"
    by (elim conjE) (erule impE, assumption, elim conjE, assumption)
  from this [rule_format, of "''up''" 0 60 15]
  have q: "Header_Get ?F (Header ?q) ''X-Scope-OrgID'' = ''anonymous''"
    by (simp add: api example_config_sel)
  show ?thesis using rt nc example_run w api q by (intro conjI)
qed

end
